theory Spec2Isabelle
  imports Main
begin

section \<open>Python values and exceptions\<close>

text \<open>
  The program is a Python 3 script (\<^verbatim>\<open>cmkcli.py\<close>). Exceptions are values: a function that can
  raise returns \<open>error + 'a\<close>, with \<open>Inl\<close> for the exception that leaves it.
\<close>

datatype error = IndexError | ValueError

definition bind_err :: "error + 'a \<Rightarrow> ('a \<Rightarrow> error + 'b) \<Rightarrow> error + 'b" where
  "bind_err m f = (case m of Inl e \<Rightarrow> Inl e | Inr x \<Rightarrow> f x)"

text \<open>
  Where a Python integer \<open>i\<close> points in a list of \<open>len\<close> elements: \<open>0 \<dots> len - 1\<close> are the
  positions themselves, \<open>-len \<dots> -1\<close> count from the end, anything else is out of range.
\<close>

definition norm_index :: "nat \<Rightarrow> int \<Rightarrow> nat option" where
  "norm_index len i =
     (if 0 \<le> i \<and> i < int len then Some (nat i)
      else if i < 0 \<and> - int len \<le> i then Some (nat (int len + i))
      else None)"

text \<open>\<^verbatim>\<open>xs[i]\<close> for a Python integer \<open>i\<close>.\<close>

definition py_index :: "'a list \<Rightarrow> int \<Rightarrow> error + 'a" where
  "py_index xs i =
     (case norm_index (length xs) i of None \<Rightarrow> Inl IndexError | Some j \<Rightarrow> Inr (xs ! j))"

text \<open>\<^verbatim>\<open>xs[n]\<close> for a literal index \<open>n \<ge> 0\<close>, as in \<^verbatim>\<open>i[2]\<close>.\<close>

definition nth_err :: "'a list \<Rightarrow> nat \<Rightarrow> error + 'a" where
  "nth_err xs n = (if n < length xs then Inr (xs ! n) else Inl IndexError)"

text \<open>\<^verbatim>\<open>xs.pop(0)\<close> and \<^verbatim>\<open>xs.pop()\<close>, returning the list that is left.\<close>

definition pop_first :: "'a list \<Rightarrow> error + 'a list" where
  "pop_first xs = (case xs of [] \<Rightarrow> Inl IndexError | _ # rest \<Rightarrow> Inr rest)"

definition pop_last :: "'a list \<Rightarrow> error + 'a list" where
  "pop_last xs = (case xs of [] \<Rightarrow> Inl IndexError | _ # _ \<Rightarrow> Inr (butlast xs))"

section \<open>The response scraper: \<^verbatim>\<open>WatoSitesHtmlParser\<close>\<close>

text \<open>
  \<^verbatim>\<open>html.parser.HTMLParser.feed\<close> tokenises the text and calls the three handlers of the
  subclass in document order. The tokeniser belongs to the standard library; the model starts
  from the sequence of handler calls it makes.
\<close>

datatype event =
    StartTag string "(string \<times> string option) list"
  | EndTag string
  | Data string

record parser =
  "output" :: "string list list"
  row_index :: int
  column_index :: int
  header_found :: bool

definition parser_init :: parser where
  "parser_init = \<lparr>output = [], row_index = -1, column_index = 0, header_found = False\<rparr>"

definition handle_starttag :: "string \<Rightarrow> (string \<times> string option) list \<Rightarrow> parser \<Rightarrow> parser" where
  "handle_starttag tag attrs s =
     (if \<not> header_found s then s
      else
        let s1 = (if tag = ''tr''
                  then s\<lparr>row_index := row_index s + 1, column_index := 0,
                         output := output s @ [[]]\<rparr>
                  else s)
        in if tag = ''td'' then s1\<lparr>column_index := column_index s1 + 1\<rparr> else s1)"

definition handle_endtag :: "string \<Rightarrow> parser \<Rightarrow> parser" where
  "handle_endtag tag s =
     (if tag = ''table''
      then (if \<not> header_found s then s\<lparr>header_found := True\<rparr> else s)
      else s)"

text \<open>\<^verbatim>\<open>self.output[self.row_index].append(data)\<close>\<close>

definition output_append :: "string \<Rightarrow> parser \<Rightarrow> error + parser" where
  "output_append data s =
     (case norm_index (length (output s)) (row_index s) of
        None \<Rightarrow> Inl IndexError
      | Some j \<Rightarrow> Inr (s\<lparr>output := (output s)[j := output s ! j @ [data]]\<rparr>))"

definition handle_data :: "string \<Rightarrow> parser \<Rightarrow> error + parser" where
  "handle_data data s =
     (if column_index s = 2 then output_append data s
      else if column_index s = 3 then output_append data s
      else if column_index s = 4 then output_append data s
      else Inr s)"

fun handle :: "event \<Rightarrow> parser \<Rightarrow> error + parser" where
  "handle (StartTag tag attrs) s = Inr (handle_starttag tag attrs s)"
| "handle (EndTag tag) s = Inr (handle_endtag tag s)"
| "handle (Data d) s = handle_data d s"

fun feed :: "event list \<Rightarrow> parser \<Rightarrow> error + parser" where
  "feed [] s = Inr s"
| "feed (e # es) s = bind_err (handle e s) (feed es)"

text \<open>\<^verbatim>\<open>WatoSitesHtmlParser.get_sites\<close>: \<^verbatim>\<open>pop()\<close>, then \<^verbatim>\<open>pop(0)\<close>, then the list.\<close>

definition parser_get_sites :: "parser \<Rightarrow> error + string list list" where
  "parser_get_sites s = bind_err (pop_last (output s)) pop_first"

text \<open>
  \<^verbatim>\<open>CheckMk.get_sites\<close>, from the events of the response text of \<^verbatim>\<open>wato.py?mode=sites\<close>.
\<close>

definition get_sites :: "event list \<Rightarrow> error + string list list" where
  "get_sites evs = bind_err (feed evs parser_init) parser_get_sites"

subsection \<open>Pages made of a header table and a data table\<close>

text \<open>
  The pages the scraper is written for, as structured data. A page is everything up to the
  closing tag of its first table (\<open>chrome\<close>), then the data table: the events before its
  first row (\<open>table_lead\<close>), its rows, its closing tag and the rest of the page (\<open>tail\<close>). A
  row is a \<^verbatim>\<open><tr>\<close>, the events before its first cell (\<open>lead\<close>, where \<^verbatim>\<open><th>\<close> cells live), its
  \<^verbatim>\<open><td>\<close> cells, the \<^verbatim>\<open></tr>\<close> and the events up to the next row (\<open>trail\<close>). A cell is a
  \<^verbatim>\<open><td>\<close>, its content (\<open>inner\<close>), the \<^verbatim>\<open></td>\<close> and the events up to the next cell
  (\<open>gap\<close>).
\<close>

type_synonym attrs = "(string \<times> string option) list"

datatype td_cell = Cell (cell_attrs: attrs) (inner: "event list") (gap: "event list")

datatype tr_row =
  Row (row_attrs: attrs) (lead: "event list") (cells: "td_cell list") (trail: "event list")

datatype page =
  Page (chrome: "event list") (table_lead: "event list") (rows: "tr_row list")
    (tail: "event list")

fun render_cell :: "td_cell \<Rightarrow> event list" where
  "render_cell (Cell a i g) = StartTag ''td'' a # i @ EndTag ''td'' # g"

fun render_row :: "tr_row \<Rightarrow> event list" where
  "render_row (Row a l cs t) =
     StartTag ''tr'' a # l @ concat (map render_cell cs) @ EndTag ''tr'' # t"

fun render_page :: "page \<Rightarrow> event list" where
  "render_page (Page h l rs t) =
     h @ EndTag ''table'' # l @ concat (map render_row rs) @ EndTag ''table'' # t"

text \<open>An event that opens neither a row nor a cell.\<close>

definition inert :: "event \<Rightarrow> bool" where
  "inert e = (case e of StartTag tag _ \<Rightarrow> tag \<noteq> ''tr'' \<and> tag \<noteq> ''td'' | _ \<Rightarrow> True)"

text \<open>The text nodes among some events, in document order.\<close>

fun texts_of :: "event list \<Rightarrow> string list" where
  "texts_of [] = []"
| "texts_of (Data d # es) = d # texts_of es"
| "texts_of (_ # es) = texts_of es"

text \<open>
  Well-formed pages: the first closing table tag of the page is the one after \<open>chrome\<close>; rows
  and cells are not nested (no \<^verbatim>\<open><tr>\<close> or \<^verbatim>\<open><td>\<close> inside a cell or between cells); and no
  text node stands between a \<^verbatim>\<open></td>\<close> or \<^verbatim>\<open></tr>\<close> and the next cell or row.
\<close>

fun wf_cell :: "td_cell \<Rightarrow> bool" where
  "wf_cell (Cell a i g) = (list_all inert i \<and> list_all inert g \<and> texts_of g = [])"

fun wf_row :: "tr_row \<Rightarrow> bool" where
  "wf_row (Row a l cs t) =
     (list_all inert l \<and> list_all wf_cell cs \<and> list_all inert t \<and> texts_of t = [])"

fun wf_page :: "page \<Rightarrow> bool" where
  "wf_page (Page h l rs t) =
     (EndTag ''table'' \<notin> set h \<and> list_all inert l \<and> list_all wf_row rs \<and> list_all inert t)"

text \<open>The text contents of columns 2, 3 and 4 of a row, in document order.\<close>

definition sites_row :: "tr_row \<Rightarrow> string list" where
  "sites_row r = concat (map (\<lambda>c. texts_of (inner c)) (take 3 (drop 1 (cells r))))"

text \<open>Invariants of the parser used in the proofs.\<close>

definition collecting :: "parser \<Rightarrow> bool" where
  "collecting s = (column_index s = 2 \<or> column_index s = 3 \<or> column_index s = 4)"

definition in_row :: "parser \<Rightarrow> string list list \<Rightarrow> string list \<Rightarrow> nat \<Rightarrow> bool" where
  "in_row s rs cur c =
     (header_found s \<and> output s = rs @ [cur] \<and> row_index s = int (length rs) \<and>
      column_index s = int c)"

definition between_rows :: "parser \<Rightarrow> bool" where
  "between_rows s = (header_found s \<and> row_index s = int (length (output s)) - 1)"

fun cells_texts :: "nat \<Rightarrow> td_cell list \<Rightarrow> string list" where
  "cells_texts c [] = []"
| "cells_texts c (cl # cs) =
     (if c = 1 \<or> c = 2 \<or> c = 3 then texts_of (inner cl) else []) @ cells_texts (Suc c) cs"

section \<open>Strings and integers of Python\<close>

text \<open>
  Strings are lists of \<open>char\<close>. The functions below are the ones of Python's \<^verbatim>\<open>str\<close> that the
  script uses, on ASCII text; characters beyond ASCII are outside the model.
\<close>

text \<open>\<^verbatim>\<open>s.startswith(p)\<close>\<close>

fun startswith :: "string \<Rightarrow> string \<Rightarrow> bool" where
  "startswith s [] = True"
| "startswith [] (p # ps) = False"
| "startswith (c # cs) (p # ps) = (c = p \<and> startswith cs ps)"

text \<open>\<^verbatim>\<open>sub in s\<close> for two strings: \<open>sub\<close> occurs somewhere in \<open>s\<close>.\<close>

fun str_in :: "string \<Rightarrow> string \<Rightarrow> bool" where
  "str_in sub [] = (sub = [])"
| "str_in sub (c # cs) = (startswith (c # cs) sub \<or> str_in sub cs)"

text \<open>
  \<^verbatim>\<open>c.isspace()\<close> on ASCII: tab, line feed, vertical tab, form feed, carriage return, the
  four separators \<open>0x1C\<close> to \<open>0x1F\<close>, and the space.
\<close>

definition isspace :: "char \<Rightarrow> bool" where
  "isspace c = (c = CHR 0x09 \<or> c = CHR 0x0A \<or> c = CHR 0x0B \<or> c = CHR 0x0C \<or> c = CHR 0x0D \<or>
                c = CHR 0x1C \<or> c = CHR 0x1D \<or> c = CHR 0x1E \<or> c = CHR 0x1F \<or> c = CHR '' '')"

text \<open>\<^verbatim>\<open>s.strip()\<close>\<close>

definition strip :: "string \<Rightarrow> string" where
  "strip s = rev (dropWhile isspace (rev (dropWhile isspace s)))"

text \<open>\<^verbatim>\<open>s.lower()\<close>\<close>

definition lower_char :: "char \<Rightarrow> char" where
  "lower_char c =
     (if 65 \<le> (of_char c :: nat) \<and> (of_char c :: nat) \<le> 90
      then char_of ((of_char c :: nat) + 32) else c)"

definition lower :: "string \<Rightarrow> string" where
  "lower s = map lower_char s"

text \<open>\<^verbatim>\<open>s.rjust(width)\<close>\<close>

definition rjust :: "string \<Rightarrow> nat \<Rightarrow> string" where
  "rjust s width = replicate (width - length s) CHR '' '' @ s"

text \<open>\<^verbatim>\<open>str(i)\<close> for an integer: its decimal digits, with a minus sign when negative.\<close>

definition digit_char :: "nat \<Rightarrow> char" where
  "digit_char d = ''0123456789'' ! d"

fun digits_of :: "nat \<Rightarrow> string" where
  "digits_of n = (if n < 10 then [digit_char n] else digits_of (n div 10) @ [digit_char (n mod 10)])"

declare digits_of.simps [simp del]

definition py_str :: "int \<Rightarrow> string" where
  "py_str i = (if i < 0 then CHR ''-'' # digits_of (nat (- i)) else digits_of (nat i))"

text \<open>
  \<^verbatim>\<open>int(s)\<close> for a string. Whitespace around the number is skipped, but only the whitespace
  of C (tab, line feed, vertical tab, form feed, carriage return, space): the separators
  \<open>0x1C\<close> to \<open>0x1F\<close>, which \<^verbatim>\<open>strip()\<close> removes, make \<^verbatim>\<open>int\<close> fail. One sign is allowed, then
  decimal digits follow, where single underscores may separate digits. A number of more than
  4300 digits (the interpreter's default limit, leading zeros counted, underscores not) is
  refused. Anything that is not read raises \<open>ValueError\<close>.
\<close>

definition int_isspace :: "char \<Rightarrow> bool" where
  "int_isspace c = (c = CHR 0x09 \<or> c = CHR 0x0A \<or> c = CHR 0x0B \<or> c = CHR 0x0C \<or> c = CHR 0x0D \<or>
                    c = CHR '' '')"

definition int_strip :: "string \<Rightarrow> string" where
  "int_strip s = rev (dropWhile int_isspace (rev (dropWhile int_isspace s)))"

definition int_max_str_digits :: nat where
  "int_max_str_digits = 4300"

definition isdigit :: "char \<Rightarrow> bool" where
  "isdigit c = (48 \<le> (of_char c :: nat) \<and> (of_char c :: nat) \<le> 57)"

definition digit_value :: "char \<Rightarrow> nat" where
  "digit_value c = (of_char c :: nat) - 48"

fun more_digits :: "nat \<Rightarrow> string \<Rightarrow> nat option" where
  "more_digits acc [] = Some acc"
| "more_digits acc [c] = (if isdigit c then Some (10 * acc + digit_value c) else None)"
| "more_digits acc (c # d # ds) =
     (if isdigit c then more_digits (10 * acc + digit_value c) (d # ds)
      else if c = CHR ''_'' \<and> isdigit d then more_digits (10 * acc + digit_value d) ds
      else None)"

definition unsigned_digits :: "string \<Rightarrow> nat option" where
  "unsigned_digits s =
     (if int_max_str_digits < length (filter isdigit s) then None
      else case s of
             [] \<Rightarrow> None
           | c # cs \<Rightarrow> if isdigit c then more_digits (digit_value c) cs else None)"

definition py_int :: "string \<Rightarrow> error + int" where
  "py_int s =
     (let t = int_strip s;
          parsed = (case t of
                      [] \<Rightarrow> None
                    | c # cs \<Rightarrow>
                        if c = CHR ''-'' then map_option (\<lambda>n. - int n) (unsigned_digits cs)
                        else if c = CHR ''+'' then map_option int (unsigned_digits cs)
                        else map_option int (unsigned_digits t))
      in case parsed of None \<Rightarrow> Inl ValueError | Some i \<Rightarrow> Inr i)"

text \<open>
  \<^verbatim>\<open>re.sub('^(A|B|...)lit', '', s)\<close>: the pattern is anchored at the start of the string (no
  \<^verbatim>\<open>MULTILINE\<close> flag), so it matches at most once. The alternatives are tried from left to right,
  each followed by the literal; the first that matches is removed with the literal.
\<close>

fun match_alternatives :: "string list \<Rightarrow> string \<Rightarrow> string \<Rightarrow> nat option" where
  "match_alternatives [] lit s = None"
| "match_alternatives (a # alts) lit s =
     (if startswith s (a @ lit) then Some (length (a @ lit)) else match_alternatives alts lit s)"

definition sub_anchored :: "string list \<Rightarrow> string \<Rightarrow> string \<Rightarrow> string" where
  "sub_anchored alts lit s =
     (case match_alternatives alts lit s of None \<Rightarrow> s | Some n \<Rightarrow> drop n s)"

text \<open>\<^verbatim>\<open>re.sub('^(CRIT|WARN|UNKNOWN) - ', '', detail)\<close>\<close>

definition strip_severity_prefix :: "string \<Rightarrow> string" where
  "strip_severity_prefix detail = sub_anchored [''CRIT'', ''WARN'', ''UNKNOWN''] '' - '' detail"

text \<open>\<^verbatim>\<open>re.sub(';', ':', comment)\<close>: every semicolon becomes a colon.\<close>

definition sub_semicolons :: "string \<Rightarrow> string" where
  "sub_semicolons comment = map (\<lambda>c. if c = CHR '';'' then CHR '':'' else c) comment"

section \<open>The libraries and the \<^verbatim>\<open>CheckMk\<close> object\<close>

text \<open>
  \<^verbatim>\<open>colored.fg\<close>, \<^verbatim>\<open>colored.attr\<close> and \<^verbatim>\<open>textwrap.fill\<close> belong to libraries outside the
  repository. The functions that call them take them as a parameter.
\<close>

record library =
  colored_fg :: "string \<Rightarrow> string"
  colored_attr :: "string \<Rightarrow> string"
  textwrap_fill :: "string \<Rightarrow> nat \<Rightarrow> string"

text \<open>
  A stand-in for the libraries, to evaluate examples: escape sequences are written as visible
  tags, and \<open>textwrap_fill\<close> returns its text, as \<^verbatim>\<open>textwrap.fill\<close> does on a text of single
  spaced words that fits the width.
\<close>

definition plain_library :: library where
  "plain_library =
     \<lparr>colored_fg = (\<lambda>colour. ''<'' @ colour @ ''>''),
      colored_attr = (\<lambda>name. ''</'' @ name @ ''>''),
      textwrap_fill = (\<lambda>text width. text)\<rparr>"

record checkmk =
  print_colour :: bool

definition str_red :: "library \<Rightarrow> checkmk \<Rightarrow> string \<Rightarrow> string" where
  "str_red L self s =
     (if print_colour self then concat [colored_fg L ''red'', s, colored_attr L ''reset''] else s)"

definition str_yellow :: "library \<Rightarrow> checkmk \<Rightarrow> string \<Rightarrow> string" where
  "str_yellow L self s =
     (if print_colour self then concat [colored_fg L ''yellow'', s, colored_attr L ''reset'']
      else s)"

definition str_blue :: "library \<Rightarrow> checkmk \<Rightarrow> string \<Rightarrow> string" where
  "str_blue L self s =
     (if print_colour self then concat [colored_fg L ''blue'', s, colored_attr L ''reset''] else s)"

definition str_green :: "library \<Rightarrow> checkmk \<Rightarrow> string \<Rightarrow> string" where
  "str_green L self s =
     (if print_colour self then concat [colored_fg L ''green'', s, colored_attr L ''reset'']
      else s)"

definition str_orange :: "library \<Rightarrow> checkmk \<Rightarrow> string \<Rightarrow> string" where
  "str_orange L self s =
     (if print_colour self then concat [colored_fg L ''dark_orange'', s, colored_attr L ''reset'']
      else s)"

section \<open>The problem and acknowledgement formatter\<close>

text \<open>
  The raw listings are the JSON answers of \<^verbatim>\<open>view.py\<close>: a list of rows, each a list of
  strings, the first row holding the column names. The functions below take the answer of the
  request they make as an argument; the URL they build for it is not modelled.
\<close>

type_synonym json_rows = "string list list"

text \<open>
  A \<^verbatim>\<open>for\<close> loop that appends one result for each element, and one that appends a result for
  some of the elements only. An exception in the body leaves the loop.
\<close>

fun map_err :: "('a \<Rightarrow> error + 'b) \<Rightarrow> 'a list \<Rightarrow> error + 'b list" where
  "map_err f [] = Inr []"
| "map_err f (x # xs) = bind_err (f x) (\<lambda>y. bind_err (map_err f xs) (\<lambda>ys. Inr (y # ys)))"

fun collect_err :: "('a \<Rightarrow> error + 'b option) \<Rightarrow> 'a list \<Rightarrow> error + 'b list" where
  "collect_err f [] = Inr []"
| "collect_err f (x # xs) =
     bind_err (f x) (\<lambda>r. bind_err (collect_err f xs)
       (\<lambda>ys. Inr (case r of None \<Rightarrow> ys | Some y \<Rightarrow> y # ys)))"

text \<open>
  The acknowledgement cell: \<^verbatim>\<open>'(acknowledged) '\<close> when \<^verbatim>\<open>'ack' in icons\<close>, then
  \<^verbatim>\<open>'(downtime)'\<close> when \<^verbatim>\<open>'downtime' in icons\<close>, in blue.
\<close>

definition ack_cell :: "library \<Rightarrow> checkmk \<Rightarrow> string \<Rightarrow> string" where
  "ack_cell L self icons =
     (let ack = [];
          ack = (if str_in ''ack'' icons then ack @ ''(acknowledged) '' else ack);
          ack = (if str_in ''downtime'' icons then ack @ ''(downtime)'' else ack)
      in str_blue L self ack)"

text \<open>The emphasis of a service state and of a host state.\<close>

definition service_state :: "library \<Rightarrow> checkmk \<Rightarrow> string \<Rightarrow> string" where
  "service_state L self st =
     (if st = ''CRIT'' then str_red L self st
      else if st = ''WARN'' then str_yellow L self st
      else if st = ''UNKN'' then str_orange L self st
      else st)"

definition host_state :: "library \<Rightarrow> checkmk \<Rightarrow> string \<Rightarrow> string" where
  "host_state L self st =
     (if st = ''DOWN'' then str_red L self st
      else if st = ''UNKN'' then str_orange L self st
      else st)"

subsection \<open>\<^verbatim>\<open>get_service_problems_table\<close>\<close>

definition service_problem_row :: "library \<Rightarrow> checkmk \<Rightarrow> string list \<Rightarrow> error + string list" where
  "service_problem_row L self i =
     bind_err (nth_err i 0) (\<lambda>i0.
     let state = service_state L self i0 in
     bind_err (nth_err i 1) (\<lambda>host.
     bind_err (nth_err i 2) (\<lambda>i2.
     let service = textwrap_fill L i2 70 in
     bind_err (nth_err i 3) (\<lambda>icons.
     let ack = ack_cell L self icons in
     bind_err (nth_err i 4) (\<lambda>i4.
     let detail = textwrap_fill L (strip_severity_prefix i4) 100 in
     bind_err (nth_err i 5) (\<lambda>state_age.
     Inr [state, host, service, detail, state_age, ack]))))))"

definition get_service_problems_table ::
    "library \<Rightarrow> checkmk \<Rightarrow> json_rows \<Rightarrow> error + string list list" where
  "get_service_problems_table L self service_problems =
     bind_err (pop_first service_problems) (map_err (service_problem_row L self))"

subsection \<open>\<^verbatim>\<open>get_host_problems_table\<close>\<close>

text \<open>A cell of the host table is a string or, for the service counters, an integer.\<close>

datatype cell = Text string | Number int

definition count_cell :: "(string \<Rightarrow> string) \<Rightarrow> int \<Rightarrow> cell" where
  "count_cell colour n = (if n > 0 then Text (colour (py_str n)) else Number n)"

definition host_problem_row :: "library \<Rightarrow> checkmk \<Rightarrow> string list \<Rightarrow> error + cell list" where
  "host_problem_row L self i =
     bind_err (nth_err i 0) (\<lambda>host.
     bind_err (nth_err i 1) (\<lambda>address.
     bind_err (nth_err i 2) (\<lambda>icons.
     bind_err (nth_err i 3) (\<lambda>i3.
     let state = host_state L self i3;
         ack = ack_cell L self icons in
     bind_err (nth_err i 4) (\<lambda>i4.
     let detail = textwrap_fill L (strip_severity_prefix i4) 100 in
     bind_err (bind_err (nth_err i 5) py_int) (\<lambda>srv_ok.
     bind_err (bind_err (nth_err i 6) py_int) (\<lambda>srv_warn.
     bind_err (bind_err (nth_err i 7) py_int) (\<lambda>srv_crit.
     bind_err (bind_err (nth_err i 8) py_int) (\<lambda>srv_unkn.
     bind_err (bind_err (nth_err i 9) py_int) (\<lambda>srv_pend.
     Inr [Text state, Text host, Text address, Text detail, Text ack,
          count_cell (str_green L self) srv_ok, count_cell (str_yellow L self) srv_warn,
          count_cell (str_red L self) srv_crit, count_cell (str_orange L self) srv_unkn,
          Number srv_pend]))))))))))"

definition get_host_problems_table ::
    "library \<Rightarrow> checkmk \<Rightarrow> json_rows \<Rightarrow> error + cell list list" where
  "get_host_problems_table L self host_problems =
     bind_err (pop_first host_problems) (map_err (host_problem_row L self))"

subsection \<open>Comments\<close>

text \<open>
  \<^verbatim>\<open>get_comments\<close>: a comment is the list \<open>[author, time, host, service, text]\<close>.
\<close>

definition comment_row :: "library \<Rightarrow> string list \<Rightarrow> error + string list option" where
  "comment_row L i =
     bind_err (nth_err i 0) (\<lambda>author.
     if \<not> author = ''(Nagios Process)'' then
       bind_err (nth_err i 1) (\<lambda>time.
       bind_err (nth_err i 5) (\<lambda>host.
       bind_err (nth_err i 6) (\<lambda>service.
       bind_err (nth_err i 4) (\<lambda>text.
       Inr (Some [author, time, host, service, textwrap_fill L text 100])))))
     else Inr None)"

definition get_comments :: "library \<Rightarrow> json_rows \<Rightarrow> error + string list list" where
  "get_comments L r = bind_err (pop_first r) (collect_err (comment_row L))"

text \<open>
  \<^verbatim>\<open>get_comment\<close>. The host is a string and the service a string or \<^verbatim>\<open>None\<close>; \<^verbatim>\<open>host and \<dots>\<close>
  and \<^verbatim>\<open>not service\<close> test them for truth, which an empty string and \<^verbatim>\<open>None\<close> fail. The pair
  \<open>(author, text)\<close> stands for the list \<^verbatim>\<open>[i[0], i[4]]\<close> that is returned.
\<close>

definition truthy :: "string option \<Rightarrow> bool" where
  "truthy v = (case v of None \<Rightarrow> False | Some s \<Rightarrow> s \<noteq> [])"

definition author_and_text :: "string list \<Rightarrow> error + (string \<times> string) option" where
  "author_and_text i =
     bind_err (nth_err i 0) (\<lambda>author. bind_err (nth_err i 4) (\<lambda>text. Inr (Some (author, text))))"

fun get_comment ::
    "string list list \<Rightarrow> string \<Rightarrow> string option \<Rightarrow> error + (string \<times> string) option" where
  "get_comment [] host service = Inr None"
| "get_comment (i # comments) host service =
     (if host \<noteq> [] \<and> \<not> truthy service then
        (case nth_err i 2 of
           Inl e \<Rightarrow> Inl e
         | Inr i2 \<Rightarrow> if i2 = host then author_and_text i else get_comment comments host service)
      else if host \<noteq> [] \<and> truthy service then
        (case nth_err i 2 of
           Inl e \<Rightarrow> Inl e
         | Inr i2 \<Rightarrow>
             if i2 = host then
               (case nth_err i 3 of
                  Inl e \<Rightarrow> Inl e
                | Inr i3 \<Rightarrow>
                    if Some i3 = service then author_and_text i
                    else get_comment comments host service)
             else get_comment comments host service)
      else get_comment comments host service)"

subsection \<open>\<^verbatim>\<open>get_acknowledged_hosts\<close> and \<^verbatim>\<open>get_acknowledged_services\<close>\<close>

text \<open>
  Both loops run over the raw listing as it was received. The two answers they need are the
  problem listing (all problems, acknowledged or not) and the comment listing.
\<close>

definition comment_author :: "(string \<times> string) option \<Rightarrow> string" where
  "comment_author found = (case found of Some (author, text) \<Rightarrow> author | None \<Rightarrow> [])"

definition comment_text :: "library \<Rightarrow> (string \<times> string) option \<Rightarrow> string" where
  "comment_text L found =
     (case found of Some (author, text) \<Rightarrow> textwrap_fill L text 60 | None \<Rightarrow> [])"

definition acknowledged_host_row ::
    "library \<Rightarrow> checkmk \<Rightarrow> string list list \<Rightarrow> string list \<Rightarrow> error + string list option" where
  "acknowledged_host_row L self comments i =
     bind_err (nth_err i 2) (\<lambda>icons.
     if str_in ''ack'' icons then
       bind_err (nth_err i 0) (\<lambda>i0.
       bind_err (get_comment comments i0 None) (\<lambda>found.
       let author = comment_author found;
           comment = comment_text L found in
       bind_err (nth_err i 3) (\<lambda>i3.
       let state = host_state L self i3;
           host = i0 in
       bind_err (nth_err i 1) (\<lambda>address.
       bind_err (nth_err i 4) (\<lambda>i4.
       let detail = textwrap_fill L i4 60 in
       Inr (Some [state, host, address, detail, author, comment]))))))
     else Inr None)"

definition get_acknowledged_hosts ::
    "library \<Rightarrow> checkmk \<Rightarrow> json_rows \<Rightarrow> json_rows \<Rightarrow> error + string list list" where
  "get_acknowledged_hosts L self host_problems comments_json =
     bind_err (get_comments L comments_json) (\<lambda>comments.
     collect_err (acknowledged_host_row L self comments) host_problems)"

definition acknowledged_service_row ::
    "library \<Rightarrow> checkmk \<Rightarrow> string list list \<Rightarrow> string list \<Rightarrow> error + string list option" where
  "acknowledged_service_row L self comments i =
     bind_err (nth_err i 3) (\<lambda>icons.
     if str_in ''ack'' icons then
       bind_err (nth_err i 1) (\<lambda>i1.
       bind_err (nth_err i 2) (\<lambda>i2.
       bind_err (get_comment comments i1 (Some i2)) (\<lambda>found.
       let author = comment_author found;
           comment = comment_text L found in
       bind_err (nth_err i 0) (\<lambda>i0.
       let state = service_state L self i0;
           host = i1;
           service = i2 in
       bind_err (nth_err i 4) (\<lambda>i4.
       let detail = textwrap_fill L i4 60 in
       bind_err (nth_err i 5) (\<lambda>since.
       Inr (Some [state, host, service, detail, since, author, comment])))))))
     else Inr None)"

definition get_acknowledged_services ::
    "library \<Rightarrow> checkmk \<Rightarrow> json_rows \<Rightarrow> json_rows \<Rightarrow> error + string list list" where
  "get_acknowledged_services L self service_problems comments_json =
     bind_err (get_comments L comments_json) (\<lambda>comments.
     collect_err (acknowledged_service_row L self comments) service_problems)"

section \<open>The interactive prompts\<close>

text \<open>
  The keyboard is the list of what the successive calls of \<^verbatim>\<open>input()\<close> do: return a line, or
  raise \<^verbatim>\<open>KeyboardInterrupt\<close> or \<^verbatim>\<open>EOFError\<close>, which the prompts catch together. When the
  list is used up the standard input is at its end and \<^verbatim>\<open>input()\<close> raises \<^verbatim>\<open>EOFError\<close>. Each
  prompt returns its result and the keyboard that is left. What the prompts print is not
  modelled, and neither is the interpreter's limit on the depth of recursion.
\<close>

datatype keyboard = Line string | Interrupt

fun get_problem_id :: "bool \<Rightarrow> int \<Rightarrow> keyboard list \<Rightarrow> int option \<times> keyboard list" where
  "get_problem_id ack total_problems [] = (None, [])"
| "get_problem_id ack total_problems (Interrupt # rest) = (None, rest)"
| "get_problem_id ack total_problems (Line l # rest) =
     (case py_int l of
        Inl e \<Rightarrow> get_problem_id ack total_problems rest
      | Inr problem_id \<Rightarrow>
          if 1 \<le> problem_id \<and> problem_id \<le> total_problems then (Some problem_id, rest)
          else get_problem_id ack total_problems rest)"

fun get_acknowledge_comment :: "keyboard list \<Rightarrow> string option \<times> keyboard list" where
  "get_acknowledge_comment [] = (None, [])"
| "get_acknowledge_comment (Interrupt # rest) = (None, rest)"
| "get_acknowledge_comment (Line l # rest) =
     (let comment = strip l
      in if \<not> comment = [] then (Some (sub_semicolons comment), rest)
         else get_acknowledge_comment rest)"

fun yes_no :: "string \<Rightarrow> keyboard list \<Rightarrow> bool option \<times> keyboard list" where
  "yes_no question [] = (None, [])"
| "yes_no question (Interrupt # rest) = (None, rest)"
| "yes_no question (Line l # rest) =
     (let a = strip (lower l)
      in if take 1 a = ''y'' \<or> a = [] then (Some True, rest)
         else if take 1 a = ''n'' then (Some False, rest)
         else yes_no question rest)"

text \<open>
  \<^verbatim>\<open>prompt_acknowledge_problem\<close> ends either without doing anything or with the call
  \<^verbatim>\<open>acknowledge_problem(host, service, comment)\<close>, which sends the acknowledgement.
\<close>

definition cell_truthy :: "cell option \<Rightarrow> bool" where
  "cell_truthy v =
     (case v of None \<Rightarrow> False | Some (Text s) \<Rightarrow> s \<noteq> [] | Some (Number n) \<Rightarrow> n \<noteq> 0)"

datatype action = No_action | Acknowledge_problem cell "cell option" string

definition prompt_acknowledge_problem ::
    "cell \<Rightarrow> cell \<Rightarrow> cell option \<Rightarrow> cell \<Rightarrow> keyboard list \<Rightarrow> action \<times> keyboard list" where
  "prompt_acknowledge_problem state host service detail inputs =
     (case get_acknowledge_comment inputs of
        (None, rest) \<Rightarrow> (No_action, rest)
      | (Some comment, rest) \<Rightarrow>
          if comment = [] then (No_action, rest)
          else
            (case yes_no (if cell_truthy service
                          then ''do you wish to acknowledge this service problem?''
                          else ''do you wish to acknowledge this host problem?'') rest of
               (Some True, rest') \<Rightarrow> (Acknowledge_problem host service comment, rest')
             | (_, rest') \<Rightarrow> (No_action, rest')))"

subsection \<open>\<^verbatim>\<open>acknowledge\<close>\<close>

text \<open>\<^verbatim>\<open>del row[k]\<close>\<close>

definition del_at :: "nat \<Rightarrow> 'a list \<Rightarrow> error + 'a list" where
  "del_at k row = (if k < length row then Inr (take k row @ drop (Suc k) row) else Inl IndexError)"

text \<open>\<^verbatim>\<open>'[ ' + str(i + 1).rjust(3) + ' ]'\<close>\<close>

definition row_label :: "int \<Rightarrow> string" where
  "row_label i = ''[ '' @ rjust (py_str (i + 1)) 3 @ '' ]''"

text \<open>
  The numbering loops: \<^verbatim>\<open>del row[k]\<close>, \<^verbatim>\<open>row.insert(0, label)\<close>, \<^verbatim>\<open>i += 1\<close> for each row.
  \<open>wrap\<close> makes the label a cell of the table at hand.
\<close>

fun number_rows :: "nat \<Rightarrow> (string \<Rightarrow> 'a) \<Rightarrow> int \<Rightarrow> 'a list list \<Rightarrow> error + 'a list list" where
  "number_rows k wrap i [] = Inr []"
| "number_rows k wrap i (row # table) =
     bind_err (del_at k row) (\<lambda>r.
     bind_err (number_rows k wrap (i + 1) table) (\<lambda>rs.
     Inr ((wrap (row_label i) # r) # rs)))"

text \<open>
  \<^verbatim>\<open>acknowledge\<close> up to its last statement: it exits with status 0 when there is no problem,
  returns when no problem was selected, or calls \<^verbatim>\<open>prompt_acknowledge_problem\<close> with the
  state, host, service and detail of the selected row. The two tables are the results of
  \<^verbatim>\<open>get_host_problems_table(False, None)\<close> and \<^verbatim>\<open>get_service_problems_table(False, None)\<close>.
\<close>

datatype selection = Exited int | Returned | Prompt cell cell "cell option" cell

definition acknowledge_selection ::
    "cell list list \<Rightarrow> string list list \<Rightarrow> keyboard list \<Rightarrow> error + selection \<times> keyboard list"
  where
  "acknowledge_selection host_table service_table inputs =
     (let total_problems = int (length host_table) + int (length service_table)
      in if total_problems = 0 then Inr (Exited 0, inputs)
         else
           bind_err (number_rows 4 Text 0 host_table) (\<lambda>host_problems.
           bind_err (number_rows 5 id (int (length host_table)) service_table)
             (\<lambda>service_problems.
           case get_problem_id True total_problems inputs of
             (None, rest) \<Rightarrow> Inr (Returned, rest)
           | (Some problem_id, rest) \<Rightarrow>
               if problem_id = 0 then Inr (Returned, rest)
               else if problem_id \<le> int (length host_problems) then
                 bind_err (py_index host_problems (problem_id - 1)) (\<lambda>row.
                 bind_err (nth_err row 1) (\<lambda>state.
                 bind_err (nth_err row 2) (\<lambda>host.
                 bind_err (nth_err row 4) (\<lambda>detail.
                 Inr (Prompt state host None detail, rest)))))
               else
                 bind_err (py_index service_problems
                             (problem_id - int (length host_problems) - 1)) (\<lambda>row.
                 bind_err (nth_err row 1) (\<lambda>state.
                 bind_err (nth_err row 2) (\<lambda>host.
                 bind_err (nth_err row 3) (\<lambda>service.
                 bind_err (nth_err row 4) (\<lambda>detail.
                 Inr (Prompt (Text state) (Text host) (Some (Text service)) (Text detail),
                      rest)))))))))"

definition acknowledge ::
    "cell list list \<Rightarrow> string list list \<Rightarrow> keyboard list \<Rightarrow> error + action" where
  "acknowledge host_table service_table inputs =
     bind_err (acknowledge_selection host_table service_table inputs) (\<lambda>(sel, rest).
     Inr (case sel of
            Prompt state host service detail \<Rightarrow>
              fst (prompt_acknowledge_problem state host service detail rest)
          | _ \<Rightarrow> No_action))"


text \<open>Two small tables, in the shape the table functions return, for the examples.\<close>

definition example_host_table :: "cell list list" where
  "example_host_table =
     [[Text ''DOWN'', Text ''web01'', Text ''10.0.0.5'', Text ''ping timeout'', Text [],
       Text ''3'', Number 0, Text ''1'', Number 0, Number 0]]"

definition example_service_table :: "string list list" where
  "example_service_table =
     [[''CRIT'', ''web01'', ''CPU load'', ''load 15'', ''5m'', []],
      [''WARN'', ''db01'', ''Memory'', ''85 percent used'', ''2h'', []]]"

section \<open>Downtime requests\<close>

text \<open>
  \<^verbatim>\<open>downtime_add_minutes\<close> and \<^verbatim>\<open>downtime_remove\<close> send one request to \<^verbatim>\<open>view.py\<close> and print
  according to the text of the answer, \<open>r_text\<close>. The result is the list of the lines they
  print. The service is a string or \<^verbatim>\<open>None\<close>.
\<close>

definition downtime_add_minutes ::
    "library \<Rightarrow> checkmk \<Rightarrow> string \<Rightarrow> string option \<Rightarrow> string \<Rightarrow> int \<Rightarrow> string \<Rightarrow> string list"
  where
  "downtime_add_minutes L self hostname service comment minutes r_text =
     (if str_in ''MESSAGE: Successfully sent'' r_text then
        (if truthy service then
           [''service '' @ str_green L self (the service) @ '' on host '' @
            str_green L self hostname @ '' successfully placed in downtime for '' @
            py_str minutes @ '' minutes'']
         else
           [''host '' @ str_green L self hostname @ '' successfully placed in downtime for '' @
            py_str minutes @ '' minutes''])
      else [])"

definition downtime_remove ::
    "library \<Rightarrow> checkmk \<Rightarrow> string \<Rightarrow> string option \<Rightarrow> string \<Rightarrow> string list" where
  "downtime_remove L self hostname service r_text =
     (if str_in ''MESSAGE: Successfully sent'' r_text then
        (if truthy service then
           [''service '' @ str_green L self (the service) @ '' on host '' @
            str_green L self hostname @ '' successfully removed from downtime'']
         else
           [''host '' @ str_green L self hostname @ '' successfully removed from downtime ''])
      else
        (if truthy service then
           [''could not remove downtime on service '' @ str_red L self (the service) @
            '' on host '' @ str_red L self hostname @
            ''. it probably was not in downtime to begin with.'']
         else
           [''could not remove downtime on host '' @ str_red L self hostname @
            ''. it probably was not in downtime to begin with.'']))"

section \<open>Properties of the scraper\<close>

subsection \<open>Helper lemmas\<close>

lemma bind_err_simps [simp]:
  "bind_err (Inl e) f = Inl e" "bind_err (Inr x) f = f x"
  by (simp_all add: bind_err_def)

lemma feed_append: "feed (xs @ ys) s = bind_err (feed xs s) (feed ys)"
  by (induction xs arbitrary: s) (auto simp: bind_err_def split: sum.splits)

lemma feed_before_header:
  "EndTag ''table'' \<notin> set evs \<Longrightarrow> \<not> header_found s \<Longrightarrow> column_index s = 0 \<Longrightarrow> feed evs s = Inr s"
proof (induction evs)
  case Nil
  then show ?case by simp
next
  case (Cons e evs)
  then show ?case
    by (cases e) (auto simp: handle_starttag_def handle_endtag_def handle_data_def)
qed

lemma texts_of_append [simp]: "texts_of (xs @ ys) = texts_of xs @ texts_of ys"
  by (induction xs rule: texts_of.induct) auto

lemma feed_inert_skip:
  "header_found s \<Longrightarrow> list_all inert evs \<Longrightarrow> \<not> collecting s \<Longrightarrow> feed evs s = Inr s"
proof (induction evs)
  case Nil
  then show ?case by simp
next
  case (Cons e evs)
  then show ?case
    by (cases e) (auto simp: handle_starttag_def handle_endtag_def handle_data_def inert_def collecting_def)
qed

lemma output_append_last:
  "output s = rs @ [cur] \<Longrightarrow> row_index s = int (length rs) \<Longrightarrow>
   output_append d s = Inr (s\<lparr>output := rs @ [cur @ [d]]\<rparr>)"
  by (simp add: output_append_def norm_index_def)

lemma feed_inert_collect:
  "header_found s \<Longrightarrow> list_all inert evs \<Longrightarrow> collecting s \<Longrightarrow>
   output s = rs @ [cur] \<Longrightarrow> row_index s = int (length rs) \<Longrightarrow>
   feed evs s = Inr (s\<lparr>output := rs @ [cur @ texts_of evs]\<rparr>)"
proof (induction evs arbitrary: s cur)
  case Nil
  then show ?case by simp
next
  case (Cons e evs)
  show ?case
  proof (cases e)
    case (StartTag tag a)
    with Cons.prems have "handle e s = Inr s"
      by (simp add: handle_starttag_def inert_def)
    with Cons StartTag show ?thesis by simp
  next
    case (EndTag tag)
    with Cons.prems have "handle e s = Inr s"
      by (simp add: handle_endtag_def)
    with Cons EndTag show ?thesis by simp
  next
    case (Data d)
    let ?s' = "s\<lparr>output := rs @ [cur @ [d]]\<rparr>"
    from Cons.prems Data have h: "handle e s = Inr ?s'"
      by (auto simp: handle_data_def collecting_def output_append_last)
    have "feed evs ?s' = Inr (?s'\<lparr>output := rs @ [(cur @ [d]) @ texts_of evs]\<rparr>)"
      using Cons.prems by (intro Cons.IH) (simp_all add: collecting_def)
    with h Data show ?thesis by simp
  qed
qed


lemma feed_inert_in_row:
  assumes "in_row s rs cur c" "list_all inert evs"
  shows "\<exists>s'. feed evs s = Inr s' \<and>
           in_row s' rs (cur @ (if c = 2 \<or> c = 3 \<or> c = 4 then texts_of evs else [])) c"
proof (cases "collecting s")
  case True
  with assms have "feed evs s = Inr (s\<lparr>output := rs @ [cur @ texts_of evs]\<rparr>)"
    by (intro feed_inert_collect) (simp_all add: in_row_def)
  moreover from True assms(1) have "c = 2 \<or> c = 3 \<or> c = 4"
    by (auto simp: collecting_def in_row_def)
  ultimately show ?thesis using assms(1) by (auto simp: in_row_def)
next
  case False
  with assms have "feed evs s = Inr s"
    by (intro feed_inert_skip) (simp_all add: in_row_def)
  moreover from False assms(1) have "\<not> (c = 2 \<or> c = 3 \<or> c = 4)"
    by (auto simp: collecting_def in_row_def)
  ultimately show ?thesis using assms(1) by auto
qed

lemma feed_cell:
  assumes "in_row s rs cur c" "wf_cell cl"
  shows "\<exists>s'. feed (render_cell cl) s = Inr s' \<and>
           in_row s' rs (cur @ (if c = 1 \<or> c = 2 \<or> c = 3 then texts_of (inner cl) else []))
             (Suc c)"
proof -
  obtain a i g where cl: "cl = Cell a i g" by (cases cl)
  let ?s1 = "handle_starttag ''td'' a s"
  from assms(1) have s1: "in_row ?s1 rs cur (Suc c)"
    by (simp add: in_row_def handle_starttag_def)
  from assms(2) cl have "list_all inert (i @ EndTag ''td'' # g)"
    by (simp add: inert_def)
  from feed_inert_in_row [OF s1 this] assms(2) cl show ?thesis
    by auto
qed

lemma feed_cells:
  "in_row s rs cur c \<Longrightarrow> list_all wf_cell cs \<Longrightarrow>
   \<exists>s'. feed (concat (map render_cell cs)) s = Inr s' \<and>
        in_row s' rs (cur @ cells_texts c cs) (c + length cs)"
proof (induction cs arbitrary: s cur c)
  case Nil
  then show ?case by simp
next
  case (Cons cl cs)
  from Cons.prems obtain s1 where s1: "feed (render_cell cl) s = Inr s1"
    and r1: "in_row s1 rs (cur @ (if c = 1 \<or> c = 2 \<or> c = 3 then texts_of (inner cl) else [])) (Suc c)"
    using feed_cell [of s rs cur c cl] by auto
  from Cons.IH [OF r1] Cons.prems obtain s2 where
    "feed (concat (map render_cell cs)) s1 = Inr s2"
    "in_row s2 rs ((cur @ (if c = 1 \<or> c = 2 \<or> c = 3 then texts_of (inner cl) else [])) @ cells_texts (Suc c) cs) (Suc c + length cs)"
    by auto
  with s1 show ?case by (simp add: feed_append)
qed

lemma cells_texts_take_drop:
  "cells_texts c cs = concat (map (\<lambda>cl. texts_of (inner cl)) (drop (1 - c) (take (4 - c) cs)))"
proof (induction cs arbitrary: c)
  case Nil
  then show ?case by simp
next
  case (Cons cl cs)
  consider "c = 0" | "c = 1" | "c = 2" | "c = 3" | "4 \<le> c" by linarith
  then show ?case
  proof cases
    case 1
    then show ?thesis by (simp add: Cons.IH numeral_eq_Suc)
  next
    case 2
    then show ?thesis by (simp add: Cons.IH numeral_eq_Suc)
  next
    case 3
    then show ?thesis by (simp add: Cons.IH numeral_eq_Suc)
  next
    case 4
    then show ?thesis by (simp add: Cons.IH numeral_eq_Suc)
  next
    case 5
    then show ?thesis by (simp add: Cons.IH)
  qed
qed

lemma cells_texts_sites_row: "cells_texts 0 (cells r) = sites_row r"
  by (simp add: cells_texts_take_drop sites_row_def drop_take)

lemma feed_row:
  assumes "between_rows s" "list_all inert l" "list_all wf_cell cs" "list_all inert t"
  shows "\<exists>s'. feed (render_row (Row a l cs t)) s = Inr s' \<and>
           in_row s' (output s)
             (sites_row (Row a l cs t) @
              (if length cs = 2 \<or> length cs = 3 \<or> length cs = 4 then texts_of t else []))
             (length cs)"
proof -
  let ?s1 = "handle_starttag ''tr'' a s"
  from assms(1) have r1: "in_row ?s1 (output s) [] 0"
    by (simp add: in_row_def between_rows_def handle_starttag_def)
  from feed_inert_in_row [OF r1 assms(2)] obtain s2 where
    s2: "feed l ?s1 = Inr s2" and r2: "in_row s2 (output s) [] 0"
    by auto
  from feed_cells [OF r2 assms(3)] obtain s3 where
    s3: "feed (concat (map render_cell cs)) s2 = Inr s3"
    and r3: "in_row s3 (output s) (cells_texts 0 cs) (length cs)"
    by auto
  from assms(4) have it: "list_all inert (EndTag ''tr'' # t)"
    by (simp add: inert_def)
  have te: "texts_of (EndTag ''tr'' # t) = texts_of t" by simp
  from feed_inert_in_row [OF r3 it] obtain s4 where
    s4: "feed (EndTag ''tr'' # t) s3 = Inr s4"
    and r4: "in_row s4 (output s)
               (cells_texts 0 cs @
                (if length cs = 2 \<or> length cs = 3 \<or> length cs = 4
                 then texts_of (EndTag ''tr'' # t) else []))
               (length cs)"
    by blast
  have "feed (render_row (Row a l cs t)) s = Inr s4"
    using s2 s3 s4 by (simp add: feed_append)
  with r4 [unfolded te] show ?thesis
    using cells_texts_sites_row [of "Row a l cs t"] by simp
qed

lemma in_row_between: "in_row s rs cur c \<Longrightarrow> between_rows s \<and> output s = rs @ [cur]"
  by (simp add: in_row_def between_rows_def)

lemma feed_rows:
  "between_rows s \<Longrightarrow> list_all wf_row rs \<Longrightarrow>
   \<exists>s'. feed (concat (map render_row rs)) s = Inr s' \<and> between_rows s' \<and>
        output s' = output s @ map sites_row rs"
proof (induction rs arbitrary: s)
  case Nil
  then show ?case by simp
next
  case (Cons r rs)
  obtain a l cs t where r: "r = Row a l cs t" by (cases r)
  from Cons.prems r have w: "list_all inert l" "list_all wf_cell cs" "list_all inert t"
    and nt: "texts_of t = []"
    by simp_all
  from feed_row [OF Cons.prems(1) w, of a] obtain s1 where
    s1': "feed (render_row (Row a l cs t)) s = Inr s1"
    and r1': "in_row s1 (output s)
               (sites_row (Row a l cs t) @
                (if length cs = 2 \<or> length cs = 3 \<or> length cs = 4 then texts_of t else []))
               (length cs)"
    by blast
  from s1' r have s1: "feed (render_row r) s = Inr s1" by simp
  from r1' nt r have r1: "in_row s1 (output s) (sites_row r) (length cs)"
    by (simp cong: if_cong)
  from in_row_between [OF r1] Cons.IH [of s1] Cons.prems obtain s2 where
    "feed (concat (map render_row rs)) s1 = Inr s2" "between_rows s2"
    "output s2 = (output s @ [sites_row r]) @ map sites_row rs"
    by auto
  with s1 show ?case by (simp add: feed_append)
qed


lemma feed_page_front:
  assumes "EndTag ''table'' \<notin> set h" "list_all inert l"
  shows "feed (h @ EndTag ''table'' # l) parser_init = Inr (parser_init\<lparr>header_found := True\<rparr>)"
proof -
  let ?s0 = "parser_init\<lparr>header_found := True\<rparr>"
  from assms(1) have "feed h parser_init = Inr parser_init"
    by (intro feed_before_header) (simp_all add: parser_init_def)
  moreover have "handle (EndTag ''table'') parser_init = Inr ?s0"
    by (simp add: handle_endtag_def parser_init_def)
  moreover from assms(2) have "feed l ?s0 = Inr ?s0"
    by (intro feed_inert_skip) (simp_all add: parser_init_def collecting_def)
  ultimately show ?thesis by (simp add: feed_append)
qed

lemma pop_last_snoc: "pop_last (xs @ [x]) = Inr xs"
  by (cases xs) (simp_all add: pop_last_def)

lemma get_sites_page:
  assumes "EndTag ''table'' \<notin> set h" "list_all inert l" "list_all wf_row rs"
    "list_all inert rl" "list_all wf_cell cs" "list_all inert rt" "list_all inert t"
  shows "get_sites (render_page (Page h l (rs @ [Row a rl cs rt]) t)) =
           pop_first (map sites_row rs)"
proof -
  let ?s0 = "parser_init\<lparr>header_found := True\<rparr>"
  let ?r = "Row a rl cs (rt @ EndTag ''table'' # t)"
  have split: "render_page (Page h l (rs @ [Row a rl cs rt]) t) =
      (h @ EndTag ''table'' # l) @ concat (map render_row rs) @ render_row ?r"
    by simp
  have b0: "between_rows ?s0"
    by (simp add: between_rows_def parser_init_def)
  from feed_rows [OF b0 assms(3)] obtain s1 where
    s1: "feed (concat (map render_row rs)) ?s0 = Inr s1" and b1: "between_rows s1"
    and o1: "output s1 = output ?s0 @ map sites_row rs"
    by blast
  from assms(6,7) have "list_all inert (rt @ EndTag ''table'' # t)"
    by (simp add: inert_def)
  from feed_row [OF b1 assms(4,5) this, of a] obtain s2 x where
    s2: "feed (render_row ?r) s1 = Inr s2" and r2: "in_row s2 (output s1) x (length cs)"
    by blast
  from r2 o1 have o2: "output s2 = map sites_row rs @ [x]"
    by (simp add: in_row_def parser_init_def)
  have "feed (render_page (Page h l (rs @ [Row a rl cs rt]) t)) parser_init = Inr s2"
    unfolding split using feed_page_front [OF assms(1,2)] s1 s2
    by (simp only: feed_append bind_err_simps)
  then show ?thesis
    using o2 by (simp add: get_sites_def parser_get_sites_def pop_last_snoc)
qed

text \<open>
  Claim C1 (as amended). For every page made of a complete header table followed by one data
  table that has at least two rows, with rows and cells not nested and no text node between
  cells or rows, \<open>get_sites\<close> returns exactly the interior rows of the data table (all rows but
  the first and the last), each as the text nodes of the row's columns 2, 3 and 4 in document
  order. Text in the other columns, in the chrome and around the table is ignored.
\<close>

theorem scraper_interior_rows:
  assumes "wf_page p" and "2 \<le> length (rows p)"
  shows "get_sites (render_page p) = Inr (butlast (tl (map sites_row (rows p))))"
proof -
  obtain h l rs t where p: "p = Page h l rs t" by (cases p)
  with assms(2) have "rs \<noteq> []" by auto
  then obtain rs' r where rs: "rs = rs' @ [r]" by (metis rev_exhaust)
  obtain a rl cs rt where r: "r = Row a rl cs rt" by (cases r)
  from assms(2) p rs have ne: "rs' \<noteq> []" by auto
  from assms(1) p rs r have "get_sites (render_page p) = pop_first (map sites_row rs')"
    by (simp add: get_sites_page del: render_page.simps)
  also from ne have "\<dots> = Inr (tl (map sites_row rs'))"
    by (cases rs') (simp_all add: pop_first_def)
  also have "tl (map sites_row rs') = butlast (tl (map sites_row (rs' @ [r])))"
    using ne by (cases rs') simp_all
  finally show ?thesis by (simp add: p rs)
qed

theorem scraper_interior_rows_witness:
  "wf_page (Page
     [StartTag ''table'' [], StartTag ''tr'' [], StartTag ''td'' [], Data ''Sites'']
     [StartTag ''table'' [(''class'', Some ''data'')]]
     [Row [] [StartTag ''th'' [], Data ''ID'', EndTag ''th''] [] [],
      Row [] [] [Cell [] [Data ''edit''] [], Cell [] [Data ''main''] [],
                 Cell [] [StartTag ''b'' [], Data ''Main site'', EndTag ''b''] [],
                 Cell [] [Data ''tcp:10.0.0.1:6557''] [], Cell [] [Data ''yes''] []] [],
      Row [] [] [Cell [] [Data ''edit''] [], Cell [] [Data ''dr''] [],
                 Cell [] [Data ''Backup''] [], Cell [] [] []] [],
      Row [] [] [Cell [] [Data ''2 sites''] []] []]
     [EndTag ''body'']) \<and>
   get_sites (render_page (Page
     [StartTag ''table'' [], StartTag ''tr'' [], StartTag ''td'' [], Data ''Sites'']
     [StartTag ''table'' [(''class'', Some ''data'')]]
     [Row [] [StartTag ''th'' [], Data ''ID'', EndTag ''th''] [] [],
      Row [] [] [Cell [] [Data ''edit''] [], Cell [] [Data ''main''] [],
                 Cell [] [StartTag ''b'' [], Data ''Main site'', EndTag ''b''] [],
                 Cell [] [Data ''tcp:10.0.0.1:6557''] [], Cell [] [Data ''yes''] []] [],
      Row [] [] [Cell [] [Data ''edit''] [], Cell [] [Data ''dr''] [],
                 Cell [] [Data ''Backup''] [], Cell [] [] []] [],
      Row [] [] [Cell [] [Data ''2 sites''] []] []]
     [EndTag ''body''])) =
   Inr [[''main'', ''Main site'', ''tcp:10.0.0.1:6557''], [''dr'', ''Backup'']]"
  using scraper_interior_rows [of "Page
     [StartTag ''table'' [], StartTag ''tr'' [], StartTag ''td'' [], Data ''Sites'']
     [StartTag ''table'' [(''class'', Some ''data'')]]
     [Row [] [StartTag ''th'' [], Data ''ID'', EndTag ''th''] [] [],
      Row [] [] [Cell [] [Data ''edit''] [], Cell [] [Data ''main''] [],
                 Cell [] [StartTag ''b'' [], Data ''Main site'', EndTag ''b''] [],
                 Cell [] [Data ''tcp:10.0.0.1:6557''] [], Cell [] [Data ''yes''] []] [],
      Row [] [] [Cell [] [Data ''edit''] [], Cell [] [Data ''dr''] [],
                 Cell [] [Data ''Backup''] [], Cell [] [] []] [],
      Row [] [] [Cell [] [Data ''2 sites''] []] []]
     [EndTag ''body'']"]
  by (simp add: inert_def sites_row_def)

text \<open>
  The claim as stated covers every data table. On a data table with a single row the interior
  is empty, but \<open>get_sites\<close> raises \<open>IndexError\<close>: after \<^verbatim>\<open>pop()\<close> nothing is left for
  \<^verbatim>\<open>pop(0)\<close>.
\<close>

theorem scraper_single_row_counterexample:
  "wf_page (Page [StartTag ''table'' []] [StartTag ''table'' []]
     [Row [] [] [Cell [] [Data ''edit''] [], Cell [] [Data ''main''] [],
                 Cell [] [Data ''Main site''] [],
                 Cell [] [Data ''tcp:10.0.0.1:6557''] []] []] []) \<and>
   butlast (tl (map sites_row (rows (Page [StartTag ''table'' []] [StartTag ''table'' []]
     [Row [] [] [Cell [] [Data ''edit''] [], Cell [] [Data ''main''] [],
                 Cell [] [Data ''Main site''] [],
                 Cell [] [Data ''tcp:10.0.0.1:6557''] []] []] [])))) = [] \<and>
   get_sites (render_page (Page [StartTag ''table'' []] [StartTag ''table'' []]
     [Row [] [] [Cell [] [Data ''edit''] [], Cell [] [Data ''main''] [],
                 Cell [] [Data ''Main site''] [],
                 Cell [] [Data ''tcp:10.0.0.1:6557''] []] []] [])) = Inl IndexError"
  by (simp add: get_sites_def parser_init_def parser_get_sites_def pop_last_def pop_first_def
      handle_starttag_def handle_endtag_def handle_data_def output_append_def norm_index_def
      inert_def)

text \<open>
  The same holds for every data table with fewer than two rows: one of the two \<^verbatim>\<open>pop\<close> calls
  finds the list empty.
\<close>

lemma scraper_short_table_raises:
  assumes "wf_page p" and "length (rows p) < 2"
  shows "get_sites (render_page p) = Inl IndexError"
proof -
  obtain h l rs t where p: "p = Page h l rs t" by (cases p)
  show ?thesis
  proof (cases rs)
    case Nil
    let ?s0 = "parser_init\<lparr>header_found := True\<rparr>"
    from assms(1) p have "list_all inert (EndTag ''table'' # t)"
      by (simp add: inert_def)
    then have "feed (EndTag ''table'' # t) ?s0 = Inr ?s0"
      by (intro feed_inert_skip) (simp_all add: parser_init_def collecting_def)
    with assms(1) p Nil have "feed (render_page p) parser_init = Inr ?s0"
      using feed_page_front [of h l] feed_append [of "h @ EndTag ''table'' # l" "EndTag ''table'' # t" parser_init]
      by simp
    then show ?thesis
      by (simp add: get_sites_def parser_get_sites_def pop_last_def parser_init_def)
  next
    case (Cons r rs')
    with assms(2) p have rs: "rs = [] @ [r]" by simp
    obtain a rl cs rt where r: "r = Row a rl cs rt" by (cases r)
    from assms(1) p rs r have "get_sites (render_page p) = pop_first (map sites_row [])"
      using get_sites_page [of h l "[]" rl cs rt t a] by simp
    then show ?thesis by (simp add: pop_first_def)
  qed
qed

text \<open>
  Why the pages above have no text between cells: a text node that follows the \<^verbatim>\<open></td>\<close> of
  column 2, 3 or 4 is collected like the text inside the cell, here the blank after
  \<^verbatim>\<open>main\<close>; the one after column 1 is not.
\<close>

lemma scraper_text_between_cells:
  "get_sites (render_page (Page [StartTag ''table'' []] [StartTag ''table'' []]
     [Row [] [StartTag ''th'' [], Data ''ID'', EndTag ''th''] [] [],
      Row [] [] [Cell [] [Data ''edit''] [Data '' ''], Cell [] [Data ''main''] [Data '' ''],
                 Cell [] [Data ''Main site''] []] [],
      Row [] [] [Cell [] [Data ''1 site''] []] []] [])) =
   Inr [[''main'', '' '', ''Main site'']]"
  by (simp add: get_sites_def parser_init_def parser_get_sites_def pop_last_def pop_first_def
      handle_starttag_def handle_endtag_def handle_data_def output_append_def norm_index_def)

text \<open>
  Before the first closing table tag the handlers change nothing: for every sequence of
  handler calls without one, the parser ends as it started, with an empty \<open>output\<close>, and
  \<^verbatim>\<open>pop()\<close> in \<open>get_sites\<close> raises \<open>IndexError\<close>.
\<close>

lemma no_table_events_raise:
  assumes "EndTag ''table'' \<notin> set evs"
  shows "feed evs parser_init = Inr parser_init \<and> get_sites evs = Inl IndexError"
proof -
  from assms have "feed evs parser_init = Inr parser_init"
    by (intro feed_before_header) (simp_all add: parser_init_def)
  then show ?thesis
    by (simp add: get_sites_def parser_get_sites_def pop_last_def parser_init_def)
qed

text \<open>
  Claim C2. The claim is that a page without a closing table tag, such as the login page
  that answers a request that was not authenticated, yields an empty list of rows and no
  exception. On the handler calls of the page
  \<^verbatim>\<open><html><body><form>Invalid login</form></body></html>\<close> the parser collects nothing, and
  \<open>get_sites\<close> does not return the empty list: its first \<^verbatim>\<open>pop()\<close> raises \<open>IndexError\<close>, which
  neither \<open>get_sites\<close> nor its callers catch.
\<close>

theorem login_page_raises:
  "feed [StartTag ''html'' [], StartTag ''body'' [], StartTag ''form'' [],
      Data ''Invalid login'', EndTag ''form'', EndTag ''body'', EndTag ''html''] parser_init
   = Inr parser_init \<and>
   output parser_init = [] \<and>
   get_sites [StartTag ''html'' [], StartTag ''body'' [], StartTag ''form'' [],
      Data ''Invalid login'', EndTag ''form'', EndTag ''body'', EndTag ''html'']
   = Inl IndexError"
proof -
  have f: "feed [StartTag ''html'' [], StartTag ''body'' [], StartTag ''form'' [],
      Data ''Invalid login'', EndTag ''form'', EndTag ''body'', EndTag ''html''] parser_init
   = Inr parser_init"
    by (simp add: parser_init_def handle_starttag_def handle_endtag_def handle_data_def)
  have e: "output parser_init = []"
    by (simp add: parser_init_def)
  from f e have "get_sites [StartTag ''html'' [], StartTag ''body'' [], StartTag ''form'' [],
      Data ''Invalid login'', EndTag ''form'', EndTag ''body'', EndTag ''html'']
   = Inl IndexError"
    by (simp add: get_sites_def parser_get_sites_def pop_last_def)
  with f e show ?thesis by simp
qed

section \<open>Properties of the formatter\<close>

subsection \<open>Helper lemmas\<close>

lemma nth_err_simps [simp]:
  "n < length xs \<Longrightarrow> nth_err xs n = Inr (xs ! n)"
  "\<not> n < length xs \<Longrightarrow> nth_err xs n = Inl IndexError"
  by (simp_all add: nth_err_def)

lemma startswith_iff: "startswith s p \<longleftrightarrow> (\<exists>r. s = p @ r)"
  by (induction s p rule: startswith.induct) auto

lemma startswith_append [simp]: "startswith (p @ r) p"
  by (simp add: startswith_iff)

lemma str_in_iff: "str_in sub s \<longleftrightarrow> (\<exists>p q. s = p @ sub @ q)"
proof (induction s)
  case Nil
  then show ?case by auto
next
  case (Cons c cs)
  show ?case
  proof
    assume "str_in sub (c # cs)"
    then consider "startswith (c # cs) sub" | "str_in sub cs" by auto
    then show "\<exists>p q. c # cs = p @ sub @ q"
    proof cases
      case 1
      then obtain r where "c # cs = sub @ r" by (auto simp: startswith_iff)
      then have "c # cs = [] @ sub @ r" by simp
      then show ?thesis by blast
    next
      case 2
      with Cons.IH obtain p q where "cs = p @ sub @ q" by auto
      then have "c # cs = (c # p) @ sub @ q" by simp
      then show ?thesis by blast
    qed
  next
    assume "\<exists>p q. c # cs = p @ sub @ q"
    then obtain p q where pq: "c # cs = p @ sub @ q" by auto
    show "str_in sub (c # cs)"
    proof (cases p)
      case Nil
      with pq have "startswith (c # cs) sub" unfolding startswith_iff by auto
      then show ?thesis by simp
    next
      case (Cons a p')
      with pq have "cs = p' @ sub @ q" by simp
      with Cons.IH show ?thesis by auto
    qed
  qed
qed

lemma collect_err_set:
  assumes "collect_err f xs = Inr ys" "y \<in> set ys"
  shows "\<exists>x\<in>set xs. f x = Inr (Some y)"
  using assms
proof (induction xs arbitrary: ys)
  case Nil
  then show ?case by simp
next
  case (Cons x xs)
  from Cons.prems(1) obtain r zs where r: "f x = Inr r" and zs: "collect_err f xs = Inr zs"
    and ys: "ys = (case r of None \<Rightarrow> zs | Some v \<Rightarrow> v # zs)"
    by (auto simp: bind_err_def split: sum.splits)
  show ?case
  proof (cases "y \<in> set zs")
    case True
    with Cons.IH [OF zs] show ?thesis by auto
  next
    case False
    with ys Cons.prems(2) have "r = Some y" by (cases r) auto
    with r show ?thesis by simp
  qed
qed

lemma comment_row_Some:
  assumes "comment_row L i = Inr (Some c)"
  shows "length c = 5 \<and> c ! 0 \<noteq> ''(Nagios Process)''"
  using assms
  by (auto simp: comment_row_def bind_err_def nth_err_def split: sum.splits if_splits)

lemma get_comments_rows:
  assumes "get_comments L r = Inr comments" "c \<in> set comments"
  shows "length c = 5 \<and> c ! 0 \<noteq> ''(Nagios Process)''"
proof -
  from assms(1) obtain rest where "collect_err (comment_row L) rest = Inr comments"
    by (auto simp: get_comments_def bind_err_def split: sum.splits)
  from collect_err_set [OF this assms(2)] comment_row_Some show ?thesis by blast
qed

lemma author_and_text_Some:
  "author_and_text i = Inr (Some (a, t)) \<Longrightarrow> 5 \<le> length i \<and> a = i ! 0 \<and> t = i ! 4"
  by (auto simp: author_and_text_def bind_err_def nth_err_def split: sum.splits if_splits)

lemma get_comment_from_list:
  "get_comment comments host service = Inr (Some (a, t)) \<Longrightarrow>
   \<exists>c\<in>set comments. 5 \<le> length c \<and> a = c ! 0 \<and> t = c ! 4"
proof (induction comments)
  case Nil
  then show ?case by simp
next
  case (Cons i comments)
  show ?case
  proof (cases "author_and_text i = Inr (Some (a, t))")
    case True
    with author_and_text_Some show ?thesis by auto
  next
    case False
    with Cons.prems have "get_comment comments host service = Inr (Some (a, t))"
      by (auto split: if_splits sum.splits)
    with Cons.IH show ?thesis by auto
  qed
qed

lemma author_and_text_long: "5 \<le> length c \<Longrightarrow> author_and_text c = Inr (Some (c ! 0, c ! 4))"
  by (cases c) (simp_all add: author_and_text_def)

lemma get_comment_host_find:
  assumes "\<forall>c\<in>set comments. 5 \<le> length c" "host \<noteq> []" "\<not> truthy service"
  shows "get_comment comments host service =
         Inr (map_option (\<lambda>c. (c ! 0, c ! 4)) (find (\<lambda>c. c ! 2 = host) comments))"
  using assms by (induction comments) (simp_all add: author_and_text_long)

lemma get_comment_service_find:
  assumes "\<forall>c\<in>set comments. 5 \<le> length c" "host \<noteq> []" "service \<noteq> []"
  shows "get_comment comments host (Some service) =
         Inr (map_option (\<lambda>c. (c ! 0, c ! 4))
                (find (\<lambda>c. c ! 2 = host \<and> c ! 3 = service) comments))"
  using assms by (induction comments) (simp_all add: author_and_text_long truthy_def)

subsection \<open>The severity prefix\<close>

text \<open>
  Claim C6. The severity-prefix strip removes one leading \<^verbatim>\<open>'CRIT - '\<close>, \<^verbatim>\<open>'WARN - '\<close> or
  \<^verbatim>\<open>'UNKNOWN - '\<close> and returns what follows it, whatever that is; a string that starts with
  none of the three is returned unchanged.
\<close>

theorem severity_prefix_strip:
  "strip_severity_prefix (''CRIT - '' @ s) = s \<and>
   strip_severity_prefix (''WARN - '' @ s) = s \<and>
   strip_severity_prefix (''UNKNOWN - '' @ s) = s \<and>
   ((\<forall>r. d \<noteq> ''CRIT - '' @ r) \<and> (\<forall>r. d \<noteq> ''WARN - '' @ r) \<and> (\<forall>r. d \<noteq> ''UNKNOWN - '' @ r)
      \<longrightarrow> strip_severity_prefix d = d)"
proof -
  have a: "strip_severity_prefix (''CRIT - '' @ s) = s"
    by (simp add: strip_severity_prefix_def sub_anchored_def)
  have b: "strip_severity_prefix (''WARN - '' @ s) = s"
    by (simp add: strip_severity_prefix_def sub_anchored_def)
  have c: "strip_severity_prefix (''UNKNOWN - '' @ s) = s"
    by (simp add: strip_severity_prefix_def sub_anchored_def)
  have d: "strip_severity_prefix d = d"
    if "\<forall>r. d \<noteq> ''CRIT - '' @ r" "\<forall>r. d \<noteq> ''WARN - '' @ r" "\<forall>r. d \<noteq> ''UNKNOWN - '' @ r"
  proof -
    from that have "\<not> startswith d ''CRIT - ''" "\<not> startswith d ''WARN - ''"
      "\<not> startswith d ''UNKNOWN - ''"
      unfolding startswith_iff by blast+
    then show ?thesis
      by (simp add: strip_severity_prefix_def sub_anchored_def)
  qed
  from a b c d show ?thesis by blast
qed

text \<open>
  The examples of the claim, and a detail text with another label.
\<close>

theorem severity_prefix_strip_witness:
  "strip_severity_prefix ''CRIT - foo'' = ''foo'' \<and>
   strip_severity_prefix ''WARN - bar'' = ''bar'' \<and>
   strip_severity_prefix ''UNKNOWN - baz'' = ''baz'' \<and>
   strip_severity_prefix ''OK - 3 services'' = ''OK - 3 services''"
  using severity_prefix_strip [of "''foo''" "''OK - 3 services''"]
    severity_prefix_strip [of "''bar''" "''OK - 3 services''"]
    severity_prefix_strip [of "''baz''" "''OK - 3 services''"]
  by simp

subsection \<open>The service-problem listing\<close>

text \<open>
  Claim C7 (as amended). When the row \<^verbatim>\<open>["CRIT","host1","svcA","ack","detail1","5m"]\<close> follows
  the header row of a service-problem listing, \<open>get_service_problems_table\<close> yields exactly one
  row: its severity cell is \<^verbatim>\<open>str_red('CRIT')\<close>, its acknowledgement cell is
  \<^verbatim>\<open>str_blue('(acknowledged) ')\<close>, which contains \<^verbatim>\<open>'(acknowledged)'\<close>, and its detail cell is
  \<^verbatim>\<open>'detail1'\<close>, no prefix being stripped. The one fact used of \<^verbatim>\<open>textwrap.fill\<close> is that it
  returns the seven characters \<^verbatim>\<open>'detail1'\<close> as they are at width 100.
\<close>

theorem service_listing_row:
  assumes "textwrap_fill L ''detail1'' 100 = ''detail1''"
  shows "get_service_problems_table L self
           [header, [''CRIT'', ''host1'', ''svcA'', ''ack'', ''detail1'', ''5m'']] =
         Inr [[str_red L self ''CRIT'', ''host1'', textwrap_fill L ''svcA'' 70, ''detail1'',
               ''5m'', str_blue L self ''(acknowledged) '']] \<and>
         str_in ''(acknowledged)'' (str_blue L self ''(acknowledged) '')"
proof -
  have "strip_severity_prefix ''detail1'' = ''detail1''"
    by (simp add: strip_severity_prefix_def sub_anchored_def)
  with assms have "service_problem_row L self
      [''CRIT'', ''host1'', ''svcA'', ''ack'', ''detail1'', ''5m''] =
     Inr [str_red L self ''CRIT'', ''host1'', textwrap_fill L ''svcA'' 70, ''detail1'',
          ''5m'', str_blue L self ''(acknowledged) '']"
    by (simp add: service_problem_row_def service_state_def ack_cell_def)
  then have "get_service_problems_table L self
           [header, [''CRIT'', ''host1'', ''svcA'', ''ack'', ''detail1'', ''5m'']] =
         Inr [[str_red L self ''CRIT'', ''host1'', textwrap_fill L ''svcA'' 70, ''detail1'',
               ''5m'', str_blue L self ''(acknowledged) '']]"
    by (simp add: get_service_problems_table_def pop_first_def)
  moreover have "str_in ''(acknowledged)'' (str_blue L self ''(acknowledged) '')"
  proof (cases "print_colour self")
    case True
    have "str_blue L self ''(acknowledged) '' =
          colored_fg L ''blue'' @ ''(acknowledged)'' @ ('' '' @ colored_attr L ''reset'')"
      using True by (simp add: str_blue_def)
    then show ?thesis unfolding str_in_iff by blast
  next
    case False
    then show ?thesis by (simp add: str_blue_def)
  qed
  ultimately show ?thesis by simp
qed

theorem service_listing_row_witness:
  "get_service_problems_table plain_library \<lparr>print_colour = True\<rparr>
     [[''service_state'', ''host'', ''service_description'', ''service_icons'',
       ''svc_plugin_output'', ''svc_state_age''],
      [''CRIT'', ''host1'', ''svcA'', ''ack'', ''detail1'', ''5m'']] =
   Inr [[''<red>CRIT</reset>'', ''host1'', ''svcA'', ''detail1'', ''5m'',
         ''<blue>(acknowledged) </reset>'']]"
  using service_listing_row [of plain_library "\<lparr>print_colour = True\<rparr>"
      "[''service_state'', ''host'', ''service_description'', ''service_icons'',
       ''svc_plugin_output'', ''svc_state_age'']"]
  by (simp add: plain_library_def str_red_def str_blue_def)

text \<open>
  When the row is the whole listing, it is the row that \<^verbatim>\<open>pop(0)\<close> discards as the header,
  and the table is empty.
\<close>

theorem service_listing_single_row_counterexample:
  "get_service_problems_table plain_library \<lparr>print_colour = True\<rparr>
     [[''CRIT'', ''host1'', ''svcA'', ''ack'', ''detail1'', ''5m'']] = Inr []"
  by (simp add: get_service_problems_table_def pop_first_def)

subsection \<open>Comments\<close>

text \<open>
  Claim C9. Every comment that \<open>get_comments\<close> returns has five fields and an author other
  than \<^verbatim>\<open>'(Nagios Process)'\<close>; so whatever \<open>get_comment\<close> finds in that list, for the rows of
  the acknowledged listings, is not a comment of the Nagios process.
\<close>

theorem comments_without_nagios_process:
  assumes "get_comments L r = Inr comments"
  shows "(\<forall>c\<in>set comments. length c = 5 \<and> c ! 0 \<noteq> ''(Nagios Process)'') \<and>
         (\<forall>host service author text.
            get_comment comments host service = Inr (Some (author, text)) \<longrightarrow>
            author \<noteq> ''(Nagios Process)'')"
proof -
  have a: "\<forall>c\<in>set comments. length c = 5 \<and> c ! 0 \<noteq> ''(Nagios Process)''"
    using get_comments_rows [OF assms] by blast
  have b: "author \<noteq> ''(Nagios Process)''"
    if "get_comment comments host service = Inr (Some (author, body))"
    for host service author body
  proof -
    from get_comment_from_list [OF that] obtain c where "c \<in> set comments" "author = c ! 0"
      by auto
    with a show ?thesis by auto
  qed
  from a b show ?thesis by blast
qed

theorem comments_without_nagios_process_witness:
  "get_comments plain_library
     [[''comment_author'', ''comment_time'', ''comment_expires'', ''comment_entry_type'',
       ''comment_comment'', ''host'', ''service_description''],
      [''(Nagios Process)'', ''10:00'', ''-'', ''FLAP'', ''flapping started'', ''web01'', []],
      [''alice'', ''12:00'', ''-'', ''ACK'', ''on it'', ''web01'', []]] =
     Inr [[''alice'', ''12:00'', ''web01'', [], ''on it'']] \<and>
   get_comment [[''alice'', ''12:00'', ''web01'', [], ''on it'']] ''web01'' None =
     Inr (Some (''alice'', ''on it'')) \<and>
   ''alice'' \<noteq> ''(Nagios Process)''"
proof -
  have g: "get_comments plain_library
     [[''comment_author'', ''comment_time'', ''comment_expires'', ''comment_entry_type'',
       ''comment_comment'', ''host'', ''service_description''],
      [''(Nagios Process)'', ''10:00'', ''-'', ''FLAP'', ''flapping started'', ''web01'', []],
      [''alice'', ''12:00'', ''-'', ''ACK'', ''on it'', ''web01'', []]] =
     Inr [[''alice'', ''12:00'', ''web01'', [], ''on it'']]"
    by (simp add: get_comments_def pop_first_def comment_row_def plain_library_def)
  have c: "get_comment [[''alice'', ''12:00'', ''web01'', [], ''on it'']] ''web01'' None =
     Inr (Some (''alice'', ''on it''))"
    by (simp add: truthy_def author_and_text_def)
  from comments_without_nagios_process [OF g] c have "''alice'' \<noteq> ''(Nagios Process)''"
    by blast
  with g c show ?thesis by blast
qed

text \<open>
  Claim C5. In a list of comments (five fields each, as \<open>get_comments\<close> builds them), the
  lookup for a host returns the author and text of the first comment whose host field is that
  host; the lookup for a host and a service returns those of the first comment whose host and
  service fields are both equal to the query. \<open>find\<close> returns the first element that satisfies
  a predicate, so of two matching comments the one listed earlier is chosen. A row of an
  acknowledged listing gets the author and the text (wrapped at 60) of that comment, and two
  empty strings when no comment matches. A query names a host, and a service when one is
  given, by a string that is not empty: Python's truth test on \<^verbatim>\<open>host\<close> and \<^verbatim>\<open>service\<close> tells the
  two kinds of query apart.
\<close>

theorem comment_lookup_first_match:
  assumes "\<forall>c\<in>set comments. 5 \<le> length c" and "host \<noteq> []"
  shows "get_comment comments host None =
           Inr (map_option (\<lambda>c. (c ! 0, c ! 4)) (find (\<lambda>c. c ! 2 = host) comments)) \<and>
         (service \<noteq> [] \<longrightarrow>
            get_comment comments host (Some service) =
              Inr (map_option (\<lambda>c. (c ! 0, c ! 4))
                     (find (\<lambda>c. c ! 2 = host \<and> c ! 3 = service) comments))) \<and>
         (5 \<le> length i \<and> str_in ''ack'' (i ! 2) \<and> i ! 0 = host \<longrightarrow>
            acknowledged_host_row L self comments i =
              Inr (Some ([host_state L self (i ! 3), host, i ! 1, textwrap_fill L (i ! 4) 60] @
                (case find (\<lambda>c. c ! 2 = host) comments of
                   None \<Rightarrow> [[], []]
                 | Some c \<Rightarrow> [c ! 0, textwrap_fill L (c ! 4) 60])))) \<and>
         (service \<noteq> [] \<and> 6 \<le> length j \<and> str_in ''ack'' (j ! 3) \<and> j ! 1 = host \<and>
          j ! 2 = service \<longrightarrow>
            acknowledged_service_row L self comments j =
              Inr (Some ([service_state L self (j ! 0), host, service,
                          textwrap_fill L (j ! 4) 60, j ! 5] @
                (case find (\<lambda>c. c ! 2 = host \<and> c ! 3 = service) comments of
                   None \<Rightarrow> [[], []]
                 | Some c \<Rightarrow> [c ! 0, textwrap_fill L (c ! 4) 60]))))"
proof -
  have h: "get_comment comments host None =
           Inr (map_option (\<lambda>c. (c ! 0, c ! 4)) (find (\<lambda>c. c ! 2 = host) comments))"
    using assms by (intro get_comment_host_find) (simp_all add: truthy_def)
  have s: "get_comment comments host (Some service) =
              Inr (map_option (\<lambda>c. (c ! 0, c ! 4))
                     (find (\<lambda>c. c ! 2 = host \<and> c ! 3 = service) comments))"
    if "service \<noteq> []"
    using assms that by (intro get_comment_service_find)
  have hr: "acknowledged_host_row L self comments i =
              Inr (Some ([host_state L self (i ! 3), host, i ! 1, textwrap_fill L (i ! 4) 60] @
                (case find (\<lambda>c. c ! 2 = host) comments of
                   None \<Rightarrow> [[], []]
                 | Some c \<Rightarrow> [c ! 0, textwrap_fill L (c ! 4) 60])))"
    if "5 \<le> length i" "str_in ''ack'' (i ! 2)" "i ! 0 = host"
  proof -
    from that have "i \<noteq> []" by auto
    with that h show ?thesis
    by (simp add: acknowledged_host_row_def comment_author_def comment_text_def
        split: option.splits)
  qed
  have sr: "acknowledged_service_row L self comments j =
              Inr (Some ([service_state L self (j ! 0), host, service,
                          textwrap_fill L (j ! 4) 60, j ! 5] @
                (case find (\<lambda>c. c ! 2 = host \<and> c ! 3 = service) comments of
                   None \<Rightarrow> [[], []]
                 | Some c \<Rightarrow> [c ! 0, textwrap_fill L (c ! 4) 60])))"
    if "service \<noteq> []" "6 \<le> length j" "str_in ''ack'' (j ! 3)" "j ! 1 = host" "j ! 2 = service"
  proof -
    from that have "j \<noteq> []" by auto
    with that s show ?thesis
    by (simp add: acknowledged_service_row_def comment_author_def comment_text_def
        split: option.splits)
  qed
  from h s hr sr show ?thesis by blast
qed

theorem comment_lookup_first_match_witness:
  "get_comment
     [[''alice'', ''12:00'', ''web01'', [], ''first''],
      [''bob'', ''12:05'', ''web01'', ''CPU load'', ''second''],
      [''carol'', ''12:10'', ''web01'', ''CPU load'', ''third'']] ''web01'' None =
     Inr (Some (''alice'', ''first'')) \<and>
   get_comment
     [[''alice'', ''12:00'', ''web01'', [], ''first''],
      [''bob'', ''12:05'', ''web01'', ''CPU load'', ''second''],
      [''carol'', ''12:10'', ''web01'', ''CPU load'', ''third'']] ''web01'' (Some ''CPU load'') =
     Inr (Some (''bob'', ''second'')) \<and>
   acknowledged_host_row plain_library \<lparr>print_colour = False\<rparr>
     [[''alice'', ''12:00'', ''web01'', [], ''first''],
      [''bob'', ''12:05'', ''web01'', ''CPU load'', ''second''],
      [''carol'', ''12:10'', ''web01'', ''CPU load'', ''third'']]
     [''web01'', ''10.0.0.5'', ''ack'', ''DOWN'', ''ping timeout''] =
     Inr (Some [''DOWN'', ''web01'', ''10.0.0.5'', ''ping timeout'', ''alice'', ''first'']) \<and>
   acknowledged_service_row plain_library \<lparr>print_colour = False\<rparr>
     [[''alice'', ''12:00'', ''web01'', [], ''first''],
      [''bob'', ''12:05'', ''web01'', ''CPU load'', ''second''],
      [''carol'', ''12:10'', ''web01'', ''CPU load'', ''third'']]
     [''WARN'', ''web01'', ''Memory'', ''ack'', ''85 percent used'', ''2h''] =
     Inr (Some [''WARN'', ''web01'', ''Memory'', ''85 percent used'', ''2h'', [], []])"
proof -
  have "\<forall>c\<in>set [[''alice'', ''12:00'', ''web01'', [], ''first''],
      [''bob'', ''12:05'', ''web01'', ''CPU load'', ''second''],
      [''carol'', ''12:10'', ''web01'', ''CPU load'', ''third'']]. 5 \<le> length c"
    by simp
  from comment_lookup_first_match [OF this, of "''web01''" "''CPU load''"
      "[''web01'', ''10.0.0.5'', ''ack'', ''DOWN'', ''ping timeout'']"
      plain_library "\<lparr>print_colour = False\<rparr>"
      "[''WARN'', ''web01'', ''Memory'', ''ack'', ''85 percent used'', ''2h'']"]
    comment_lookup_first_match [OF this, of "''web01''" "''Memory''"
      "[''web01'', ''10.0.0.5'', ''ack'', ''DOWN'', ''ping timeout'']"
      plain_library "\<lparr>print_colour = False\<rparr>"
      "[''WARN'', ''web01'', ''Memory'', ''ack'', ''85 percent used'', ''2h'']"]
  show ?thesis
    by (simp add: host_state_def service_state_def str_red_def str_yellow_def plain_library_def)
qed

subsection \<open>The acknowledged listings\<close>

text \<open>
  The header row stays out of the acknowledged listings exactly as a data row without the
  flag does: when its icons cell does not contain \<^verbatim>\<open>'ack'\<close>.
\<close>

lemma acknowledged_hosts_header_skipped:
  assumes "2 < length header" "\<not> str_in ''ack'' (header ! 2)"
  shows "get_acknowledged_hosts L self (header # listing) comments_json =
         get_acknowledged_hosts L self listing comments_json"
proof -
  from assms have "acknowledged_host_row L self comments header = Inr None" for comments
    by (simp add: acknowledged_host_row_def)
  then show ?thesis
    by (simp add: get_acknowledged_hosts_def bind_err_def split: sum.splits)
qed

lemma acknowledged_services_header_skipped:
  assumes "3 < length header" "\<not> str_in ''ack'' (header ! 3)"
  shows "get_acknowledged_services L self (header # listing) comments_json =
         get_acknowledged_services L self listing comments_json"
proof -
  from assms have "acknowledged_service_row L self comments header = Inr None" for comments
    by (simp add: acknowledged_service_row_def)
  then show ?thesis
    by (simp add: get_acknowledged_services_def bind_err_def split: sum.splits)
qed

text \<open>
  Claim C4. The claim is that every operation on raw rows discards the header row, element
  zero, before it reads rows by position, and that \<open>get_acknowledged_hosts\<close> and
  \<open>get_acknowledged_services\<close> never take the header row for a data row.
  \<open>get_host_problems_table\<close>, \<open>get_service_problems_table\<close> and \<open>get_comments\<close> do discard
  it. The two acknowledged listings do not: they read every row of the raw listing, the
  header among them, and keep a row when its icons cell contains \<^verbatim>\<open>'ack'\<close>. On a listing
  whose header names that column \<^verbatim>\<open>host_acknowledged\<close> (or \<^verbatim>\<open>svc_acknowledged\<close>) the header
  row comes back as an acknowledged problem, while \<open>get_host_problems_table\<close> on the same
  listing leaves it out.
\<close>

theorem acknowledged_listings_read_header:
  "get_acknowledged_hosts plain_library \<lparr>print_colour = False\<rparr>
     [[''host'', ''host_address'', ''host_acknowledged'', ''host_state'', ''host_plugin_output'',
       ''num_services_ok'', ''num_services_warn'', ''num_services_crit'',
       ''num_services_unknown'', ''num_services_pending''],
      [''web01'', ''10.0.0.5'', ''ack'', ''DOWN'', ''ping timeout'', ''3'', ''0'', ''1'', ''0'',
       ''0'']]
     [[''comment_author'', ''comment_time'', ''comment_expires'', ''comment_entry_type'',
       ''comment_comment'', ''host'', ''service_description''],
      [''alice'', ''12:00'', ''-'', ''ACK'', ''on it'', ''web01'', []]] =
     Inr [[''host_state'', ''host'', ''host_address'', ''host_plugin_output'', [], []],
          [''DOWN'', ''web01'', ''10.0.0.5'', ''ping timeout'', ''alice'', ''on it'']] \<and>
   get_host_problems_table plain_library \<lparr>print_colour = False\<rparr>
     [[''host'', ''host_address'', ''host_acknowledged'', ''host_state'', ''host_plugin_output'',
       ''num_services_ok'', ''num_services_warn'', ''num_services_crit'',
       ''num_services_unknown'', ''num_services_pending''],
      [''web01'', ''10.0.0.5'', ''ack'', ''DOWN'', ''ping timeout'', ''3'', ''0'', ''1'', ''0'',
       ''0'']] =
     Inr [[Text ''DOWN'', Text ''web01'', Text ''10.0.0.5'', Text ''ping timeout'',
           Text ''(acknowledged) '', Text ''3'', Number 0, Text ''1'', Number 0, Number 0]] \<and>
   get_acknowledged_services plain_library \<lparr>print_colour = False\<rparr>
     [[''service_state'', ''host'', ''service_description'', ''svc_acknowledged'',
       ''svc_plugin_output'', ''svc_state_age''],
      [''WARN'', ''web01'', ''Memory'', ''ack'', ''85 percent used'', ''2h'']]
     [[''comment_author'', ''comment_time'', ''comment_expires'', ''comment_entry_type'',
       ''comment_comment'', ''host'', ''service_description''],
      [''alice'', ''12:00'', ''-'', ''ACK'', ''on it'', ''web01'', []]] =
     Inr [[''service_state'', ''host'', ''service_description'', ''svc_plugin_output'',
           ''svc_state_age'', [], []],
          [''WARN'', ''web01'', ''Memory'', ''85 percent used'', ''2h'', [], []]]"
proof -
  have c: "get_comments plain_library
     [[''comment_author'', ''comment_time'', ''comment_expires'', ''comment_entry_type'',
       ''comment_comment'', ''host'', ''service_description''],
      [''alice'', ''12:00'', ''-'', ''ACK'', ''on it'', ''web01'', []]] =
     Inr [[''alice'', ''12:00'', ''web01'', [], ''on it'']]"
    by (simp add: get_comments_def pop_first_def comment_row_def plain_library_def)
  have h: "get_acknowledged_hosts plain_library \<lparr>print_colour = False\<rparr>
     [[''host'', ''host_address'', ''host_acknowledged'', ''host_state'', ''host_plugin_output'',
       ''num_services_ok'', ''num_services_warn'', ''num_services_crit'',
       ''num_services_unknown'', ''num_services_pending''],
      [''web01'', ''10.0.0.5'', ''ack'', ''DOWN'', ''ping timeout'', ''3'', ''0'', ''1'', ''0'',
       ''0'']]
     [[''comment_author'', ''comment_time'', ''comment_expires'', ''comment_entry_type'',
       ''comment_comment'', ''host'', ''service_description''],
      [''alice'', ''12:00'', ''-'', ''ACK'', ''on it'', ''web01'', []]] =
     Inr [[''host_state'', ''host'', ''host_address'', ''host_plugin_output'', [], []],
          [''DOWN'', ''web01'', ''10.0.0.5'', ''ping timeout'', ''alice'', ''on it'']]"
    unfolding get_acknowledged_hosts_def c
    by (simp add: acknowledged_host_row_def truthy_def author_and_text_def host_state_def
        str_red_def comment_author_def comment_text_def plain_library_def)
  have t: "get_host_problems_table plain_library \<lparr>print_colour = False\<rparr>
     [[''host'', ''host_address'', ''host_acknowledged'', ''host_state'', ''host_plugin_output'',
       ''num_services_ok'', ''num_services_warn'', ''num_services_crit'',
       ''num_services_unknown'', ''num_services_pending''],
      [''web01'', ''10.0.0.5'', ''ack'', ''DOWN'', ''ping timeout'', ''3'', ''0'', ''1'', ''0'',
       ''0'']] =
     Inr [[Text ''DOWN'', Text ''web01'', Text ''10.0.0.5'', Text ''ping timeout'',
           Text ''(acknowledged) '', Text ''3'', Number 0, Text ''1'', Number 0, Number 0]]"
    by (simp add: get_host_problems_table_def pop_first_def host_problem_row_def host_state_def
        ack_cell_def str_red_def str_blue_def str_green_def str_yellow_def str_orange_def
        strip_severity_prefix_def sub_anchored_def count_cell_def py_int_def int_strip_def
        int_isspace_def unsigned_digits_def int_max_str_digits_def isdigit_def digit_value_def
        py_str_def
        digits_of.simps digit_char_def plain_library_def)
  have s: "get_acknowledged_services plain_library \<lparr>print_colour = False\<rparr>
     [[''service_state'', ''host'', ''service_description'', ''svc_acknowledged'',
       ''svc_plugin_output'', ''svc_state_age''],
      [''WARN'', ''web01'', ''Memory'', ''ack'', ''85 percent used'', ''2h'']]
     [[''comment_author'', ''comment_time'', ''comment_expires'', ''comment_entry_type'',
       ''comment_comment'', ''host'', ''service_description''],
      [''alice'', ''12:00'', ''-'', ''ACK'', ''on it'', ''web01'', []]] =
     Inr [[''service_state'', ''host'', ''service_description'', ''svc_plugin_output'',
           ''svc_state_age'', [], []],
          [''WARN'', ''web01'', ''Memory'', ''85 percent used'', ''2h'', [], []]]"
    unfolding get_acknowledged_services_def c
    by (simp add: acknowledged_service_row_def truthy_def author_and_text_def
        service_state_def str_yellow_def comment_author_def comment_text_def
        plain_library_def)
  from h t s show ?thesis by blast
qed

section \<open>Properties of the downtime requests\<close>

text \<open>
  For every answer without the marker: nothing from the one, a message from the other.
\<close>

lemma downtime_add_minutes_silent:
  "\<not> str_in ''MESSAGE: Successfully sent'' r_text \<Longrightarrow>
   downtime_add_minutes L self hostname service comment minutes r_text = []"
  by (simp add: downtime_add_minutes_def)

lemma downtime_remove_reports:
  "\<not> str_in ''MESSAGE: Successfully sent'' r_text \<Longrightarrow>
   downtime_remove L self hostname service r_text \<noteq> []"
  by (simp add: downtime_remove_def)

text \<open>
  Claim C8. The claim is that a downtime request, add or remove, whose answer lacks
  \<^verbatim>\<open>'MESSAGE: Successfully sent'\<close> is reported to the user. \<open>downtime_remove\<close> prints that it
  could not remove the downtime, but \<open>downtime_add_minutes\<close> prints nothing at all: its test
  has no \<^verbatim>\<open>else\<close> branch. Adding a downtime for a service that the host does not have passes
  silently.
\<close>

theorem downtime_add_failure_silent:
  "\<not> str_in ''MESSAGE: Successfully sent'' ''No matching service found'' \<and>
   downtime_add_minutes plain_library \<lparr>print_colour = False\<rparr> ''web01'' (Some ''Nginx'')
     ''admin: downtime for 30 minutes'' 30 ''No matching service found'' = [] \<and>
   downtime_remove plain_library \<lparr>print_colour = False\<rparr> ''web01'' (Some ''Nginx'')
     ''No matching service found'' =
     [''could not remove downtime on service Nginx on host web01. it probably was not in downtime to begin with.''] \<and>
   downtime_add_minutes plain_library \<lparr>print_colour = False\<rparr> ''web01'' None
     ''admin: downtime for 30 minutes'' 30 ''MESSAGE: Successfully sent 1 commands.'' =
     [''host web01 successfully placed in downtime for 30 minutes'']"
proof -
  have n: "\<not> str_in ''MESSAGE: Successfully sent'' ''No matching service found''"
    by simp
  have a: "downtime_add_minutes plain_library \<lparr>print_colour = False\<rparr> ''web01'' (Some ''Nginx'')
     ''admin: downtime for 30 minutes'' 30 ''No matching service found'' = []"
    using n by (simp add: downtime_add_minutes_def)
  have r: "downtime_remove plain_library \<lparr>print_colour = False\<rparr> ''web01'' (Some ''Nginx'')
     ''No matching service found'' =
     [''could not remove downtime on service Nginx on host web01. it probably was not in downtime to begin with.'']"
    using n by (simp add: downtime_remove_def truthy_def str_red_def)
  have y: "str_in ''MESSAGE: Successfully sent'' ''MESSAGE: Successfully sent 1 commands.''"
    by simp
  have ok: "downtime_add_minutes plain_library \<lparr>print_colour = False\<rparr> ''web01'' None
     ''admin: downtime for 30 minutes'' 30 ''MESSAGE: Successfully sent 1 commands.'' =
     [''host web01 successfully placed in downtime for 30 minutes'']"
    using y by (simp add: downtime_add_minutes_def truthy_def str_green_def py_str_def
        digits_of.simps digit_char_def)
  from n a r ok show ?thesis by blast
qed

section \<open>Properties of the interactive prompts\<close>

subsection \<open>Helper lemmas\<close>



lemma get_problem_id_out_of_range:
  "py_int l = Inr k \<Longrightarrow> k < 1 \<or> n < k \<Longrightarrow>
   get_problem_id ack n (Line l # kb) = get_problem_id ack n kb"
  by auto

lemma get_problem_id_not_integer:
  "py_int l = Inl e \<Longrightarrow>
   get_problem_id ack n (Line l # kb) = get_problem_id ack n kb"
  by simp




lemma py_int_examples:
  "py_int ''1'' = Inr 1" "py_int '' 3 '' = Inr 3" "py_int ''0'' = Inr 0" "py_int ''4'' = Inr 4"
  "py_int ''two'' = Inl ValueError" "py_int [] = Inl ValueError" "py_int ''2'' = Inr 2"
  "py_int [CHR 0x1C, CHR ''1''] = Inl ValueError"
  by (simp_all add: py_int_def int_strip_def int_isspace_def unsigned_digits_def
      int_max_str_digits_def isdigit_def digit_value_def)

text \<open>The limit on the number of digits: longer numbers are no integers for \<^verbatim>\<open>int\<close>.\<close>

lemma digits_dropWhile_space:
  "filter isdigit (dropWhile int_isspace xs) = filter isdigit xs"
  by (induction xs) (auto simp: int_isspace_def isdigit_def)

lemma digits_int_strip: "length (filter isdigit (int_strip s)) = length (filter isdigit s)"
proof -
  let ?t = "dropWhile int_isspace s"
  have "filter isdigit (int_strip s) = rev (filter isdigit (dropWhile int_isspace (rev ?t)))"
    unfolding int_strip_def by (rule rev_filter [symmetric])
  also have "\<dots> = rev (filter isdigit (rev ?t))"
    by (simp only: digits_dropWhile_space)
  also have "\<dots> = filter isdigit ?t"
    by (simp add: rev_filter [symmetric])
  also have "\<dots> = filter isdigit s"
    by (rule digits_dropWhile_space)
  finally show ?thesis by simp
qed

lemma py_int_digit_limit:
  assumes "int_max_str_digits < length (filter isdigit s)"
  shows "py_int s = Inl ValueError"
proof -
  from assms have big: "int_max_str_digits < length (filter isdigit (int_strip s))"
    by (simp add: digits_int_strip)
  show ?thesis
  proof (cases "int_strip s")
    case Nil
    then show ?thesis by (simp add: py_int_def)
  next
    case (Cons c cs)
    with big have t: "unsigned_digits (c # cs) = None"
      by (simp add: unsigned_digits_def)
    have "unsigned_digits cs = None" if "c = CHR ''-'' \<or> c = CHR ''+''"
    proof -
      from that have "\<not> isdigit c" by (auto simp: isdigit_def)
      with big Cons show ?thesis by (simp add: unsigned_digits_def)
    qed
    with t Cons show ?thesis by (auto simp: py_int_def)
  qed
qed








subsection \<open>Selecting a problem\<close>



text \<open>
  A line with the separator \<open>0x1C\<close> before the digit is no integer for \<^verbatim>\<open>int\<close>, although
  \<^verbatim>\<open>strip()\<close> would remove the separator: it is rejected and the next line is read.
\<close>

lemma selection_separator_example:
   "acknowledge_selection example_host_table example_service_table
     [Line [CHR 0x1C, CHR ''1''], Line ''2''] =
     Inr (Prompt (Text ''CRIT'') (Text ''web01'') (Some (Text ''CPU load''))
            (Text ''load 15''), [])"
  by (simp add: acknowledge_selection_def example_host_table_def example_service_table_def
      py_int_examples del_at_def py_index_def norm_index_def)

subsection \<open>The acknowledgement comment\<close>



end
